theory Spec2Isabelle
  imports Main "HOL-Library.Sublist"
begin

unbundle bit_operations_syntax

section \<open>JavaScript strings\<close>

text \<open>
  A JavaScript string is a sequence of UTF-16 code units. The model covers the strings
  whose code units are all below 256 (ASCII and Latin-1): such a string is an Isabelle
  \<open>string\<close>, one \<open>char\<close> per code unit, so \<open>value.length\<close> is \<open>length\<close>. On these
  strings \<open>toLowerCase\<close>, \<open>trim\<close>, the regular expression classes and the UTF-8
  encoding that \<open>crypto\<close> hashes are as below.
\<close>

definition code :: "char \<Rightarrow> nat" where
  "code c = of_char c"

text \<open>White space of \<open>trim()\<close>, of \<open>\s\<close> and of \<open>parseInt\<close>: TAB, LF, VT, FF, CR, SP, NBSP.\<close>

definition is_space :: "char \<Rightarrow> bool" where
  "is_space c = (code c \<in> {9, 10, 11, 12, 13, 32, 160})"

text \<open>\<open>\d\<close> is \<open>[0-9]\<close> and \<open>\w\<close> is \<open>[A-Za-z0-9_]\<close>.\<close>

definition is_digit :: "char \<Rightarrow> bool" where
  "is_digit c = (48 \<le> code c \<and> code c \<le> 57)"

definition is_word_char :: "char \<Rightarrow> bool" where
  "is_word_char c = ((65 \<le> code c \<and> code c \<le> 90) \<or> (97 \<le> code c \<and> code c \<le> 122)
     \<or> is_digit c \<or> code c = 95)"

text \<open>
  \<open>toLowerCase\<close>: \<open>A\<close>..\<open>Z\<close> and the Latin-1 capitals U+00C0..U+00DE (without the
  multiplication sign U+00D7) move up by 32; every other code unit below 256 stays.
\<close>

definition lower_char :: "char \<Rightarrow> char" where
  "lower_char c =
     (if (65 \<le> code c \<and> code c \<le> 90) \<or> (192 \<le> code c \<and> code c \<le> 222 \<and> code c \<noteq> 215)
      then char_of (code c + 32) else c)"

definition toLowerCase :: "string \<Rightarrow> string" where
  "toLowerCase s = map lower_char s"

definition trim :: "string \<Rightarrow> string" where
  "trim s = rev (dropWhile is_space (rev (dropWhile is_space s)))"

definition startsWith :: "string \<Rightarrow> string \<Rightarrow> bool" where
  "startsWith s t = (take (length t) s = t)"

text \<open>\<open>s.includes(t)\<close>: \<open>t\<close> occurs in \<open>s\<close> as a contiguous substring.\<close>

fun includes_str :: "string \<Rightarrow> string \<Rightarrow> bool" where
  "includes_str [] t = (t = [])"
| "includes_str (c # cs) t = (startsWith (c # cs) t \<or> includes_str cs t)"

text \<open>
  \<open>s.split(/\s+/)\<close>: the pieces of \<open>s\<close> between the maximal runs of white space; a
  string that starts or ends with white space gets an empty first or last piece, and
  the empty string gives the one piece \<open>""\<close>.
\<close>

fun split_ws_from :: "string \<Rightarrow> string \<Rightarrow> string list" where
  "split_ws_from cur [] = [cur]"
| "split_ws_from cur [c] = (if is_space c then [cur, []] else [cur @ [c]])"
| "split_ws_from cur (c # d # cs) =
     (if is_space c then (if is_space d then split_ws_from cur (d # cs)
                          else cur # split_ws_from [] (d # cs))
      else split_ws_from (cur @ [c]) (d # cs))"

definition split_ws :: "string \<Rightarrow> string list" where
  "split_ws s = split_ws_from [] s"

text \<open>
  JavaScript numbers are doubles. The handlers only make integers, by \<open>parseInt\<close>,
  \<open>+ 1\<close> and \<open>- 1\<close>: a number is \<open>NaN\<close>, an integer that a double represents
  (\<open>-0\<close> is \<open>Num 0\<close>), or an infinity. \<open>number_of_int\<close> is the number nearest to an
  integer: the integer itself up to magnitude \<open>2 ^ 53\<close>; beyond, its 53 leading bits
  rounded to nearest, ties to even; an infinity from \<open>2 ^ 1024\<close> on.
\<close>

datatype number = NaN | Num int | PosInf | NegInf

function shift_count :: "nat \<Rightarrow> nat" where
  "shift_count a = (if a < 2 ^ 53 then 0 else Suc (shift_count (a div 2)))"
  by pat_completeness auto
termination
  by (relation "measure id") auto

definition round53 :: "nat \<Rightarrow> nat" where
  "round53 a =
     (let e = shift_count a; q = a div 2 ^ e; r = a mod 2 ^ e
      in if 2 * r > 2 ^ e \<or> (2 * r = 2 ^ e \<and> odd q) then (q + 1) * 2 ^ e else q * 2 ^ e)"

definition number_of_int :: "int \<Rightarrow> number" where
  "number_of_int n =
     (let m = round53 (nat \<bar>n\<bar>)
      in if m \<ge> 2 ^ 1024 then (if n < 0 then NegInf else PosInf)
         else Num (if n < 0 then - int m else int m))"

text \<open>\<open>a < b\<close>, \<open>a >= b\<close>, \<open>a <= b\<close>, \<open>a === b\<close> and \<open>a + k\<close> on these numbers.\<close>

fun js_less :: "number \<Rightarrow> number \<Rightarrow> bool" where
  "js_less (Num a) (Num b) = (a < b)"
| "js_less NegInf (Num b) = True"
| "js_less NegInf PosInf = True"
| "js_less (Num a) PosInf = True"
| "js_less a b = False"

definition js_ge :: "number \<Rightarrow> number \<Rightarrow> bool" where
  "js_ge a b = (a \<noteq> NaN \<and> b \<noteq> NaN \<and> \<not> js_less a b)"

definition js_le :: "number \<Rightarrow> number \<Rightarrow> bool" where
  "js_le a b = (a \<noteq> NaN \<and> b \<noteq> NaN \<and> \<not> js_less b a)"

definition js_eq :: "number \<Rightarrow> number \<Rightarrow> bool" where
  "js_eq a b = (a \<noteq> NaN \<and> a = b)"

fun js_add :: "number \<Rightarrow> int \<Rightarrow> number" where
  "js_add (Num a) k = number_of_int (a + k)"
| "js_add x k = x"

text \<open>
  \<open>parseInt(s, 10)\<close>: leading white space is skipped, one sign is read, then the
  longest run of decimal digits; what follows the digits is ignored. The result is
  \<open>NaN\<close> when there is no digit, else the number nearest to the integer read.
\<close>

definition digit_val :: "char \<Rightarrow> int" where
  "digit_val c = int (code c) - 48"

definition digits_value :: "string \<Rightarrow> int" where
  "digits_value ds = foldl (\<lambda>n c. 10 * n + digit_val c) 0 ds"

definition parseInt10 :: "string \<Rightarrow> number" where
  "parseInt10 s =
     (let t = dropWhile is_space s;
          neg = (t \<noteq> [] \<and> hd t = CHR ''-'');
          r = (if t \<noteq> [] \<and> (hd t = CHR ''-'' \<or> hd t = CHR ''+'') then tl t else t);
          ds = takeWhile is_digit r
      in if ds = [] then NaN
         else number_of_int (if neg then - digits_value ds else digits_value ds))"

section \<open>SHA-256 (\<open>crypto.createHash("sha256").update(value).digest("hex")\<close>)\<close>

text \<open>
  The digest of the UTF-8 encoding of the string, as 64 lower-case hexadecimal digits.
  32-bit words are natural numbers, each addition reduced modulo \<open>2 ^ 32\<close>.
\<close>

definition utf8 :: "string \<Rightarrow> nat list" where
  "utf8 s = concat (map (\<lambda>c. if code c < 128 then [code c]
                               else [192 + code c div 64, 128 + code c mod 64]) s)"

definition w32 :: "nat \<Rightarrow> nat" where
  "w32 x = x mod 4294967296"

definition rotr :: "nat \<Rightarrow> nat \<Rightarrow> nat" where
  "rotr n x = x div 2 ^ n + (x mod 2 ^ n) * 2 ^ (32 - n)"

text \<open>
  The round constants (the first 32 bits of the fractional parts of the cube roots of
  the first 64 primes) and the initial hash value (of the square roots of the first 8).
\<close>

definition K256 :: "nat list" where
  "K256 = [
    1116352408, 1899447441, 3049323471, 3921009573, 961987163, 1508970993,
    2453635748, 2870763221, 3624381080, 310598401, 607225278, 1426881987,
    1925078388, 2162078206, 2614888103, 3248222580, 3835390401, 4022224774,
    264347078, 604807628, 770255983, 1249150122, 1555081692, 1996064986,
    2554220882, 2821834349, 2952996808, 3210313671, 3336571891, 3584528711,
    113926993, 338241895, 666307205, 773529912, 1294757372, 1396182291,
    1695183700, 1986661051, 2177026350, 2456956037, 2730485921, 2820302411,
    3259730800, 3345764771, 3516065817, 3600352804, 4094571909, 275423344,
    430227734, 506948616, 659060556, 883997877, 958139571, 1322822218,
    1537002063, 1747873779, 1955562222, 2024104815, 2227730452, 2361852424,
    2428436474, 2756734187, 3204031479, 3329325298]"

definition H256 :: "nat list" where
  "H256 = [
    1779033703, 3144134277, 1013904242, 2773480762, 1359893119, 2600822924,
    528734635, 1541459225]"

definition ssig0 :: "nat \<Rightarrow> nat" where
  "ssig0 x = rotr 7 x XOR rotr 18 x XOR x div 2 ^ 3"

definition ssig1 :: "nat \<Rightarrow> nat" where
  "ssig1 x = rotr 17 x XOR rotr 19 x XOR x div 2 ^ 10"

definition bsig0 :: "nat \<Rightarrow> nat" where
  "bsig0 x = rotr 2 x XOR rotr 13 x XOR rotr 22 x"

definition bsig1 :: "nat \<Rightarrow> nat" where
  "bsig1 x = rotr 6 x XOR rotr 11 x XOR rotr 25 x"

text \<open>The message is followed by the byte 128, zeros up to 56 modulo 64, and its bit length on 8 bytes.\<close>

definition pad :: "nat list \<Rightarrow> nat list" where
  "pad bs = bs @ [128] @ replicate ((119 - length bs mod 64) mod 64) 0
     @ map (\<lambda>i. (8 * length bs) div 256 ^ (7 - i) mod 256) [0..<8]"

fun be_words :: "nat list \<Rightarrow> nat list" where
  "be_words (a # b # c # d # r) = (((a * 256 + b) * 256 + c) * 256 + d) # be_words r"
| "be_words r = []"

text \<open>The message schedule, kept as the window of its last 16 words.\<close>

definition slide :: "nat list \<Rightarrow> nat list" where
  "slide w = tl w @ [w32 (ssig1 (w ! 14) + w ! 9 + ssig0 (w ! 1) + w ! 0)]"

fun round256 :: "nat list \<Rightarrow> nat \<Rightarrow> nat \<Rightarrow> nat list" where
  "round256 [a, b, c, d, e, f, g, h] k w =
    (let t1 = h + bsig1 e + ((e AND f) XOR ((4294967295 - e) AND g)) + k + w;
         t2 = bsig0 a + ((a AND b) XOR (a AND c) XOR (b AND c))
     in [w32 (t1 + t2), a, b, c, w32 (d + t1), e, f, g])"
| "round256 st k w = st"

fun rounds :: "nat list \<Rightarrow> nat list \<Rightarrow> nat list \<Rightarrow> nat list" where
  "rounds st w [] = st"
| "rounds st w (k # ks) = rounds (round256 st k (hd w)) (slide w) ks"

definition compress :: "nat list \<Rightarrow> nat list \<Rightarrow> nat list" where
  "compress st blk = map2 (\<lambda>x y. w32 (x + y)) st (rounds st blk K256)"

fun blocks :: "nat list \<Rightarrow> nat list \<Rightarrow> nat list" where
  "blocks st ws = (if length ws < 16 then st
                   else blocks (compress st (take 16 ws)) (drop 16 ws))"

definition hex32 :: "nat \<Rightarrow> string" where
  "hex32 w = map (\<lambda>i. ''0123456789abcdef'' ! (w div 16 ^ (7 - i) mod 16)) [0..<8]"

definition sha256 :: "string \<Rightarrow> string" where
  "sha256 s = concat (map hex32 (blocks H256 (be_words (pad (utf8 s)))))"

section \<open>Records and the analyzer (\<open>analyzeString\<close>)\<close>

text \<open>
  A value of a JSON body or of a query parameter, as far as the handlers look at it:
  \<open>undefined\<close>, \<open>null\<close>, a string, or anything else. The fields of a record and of its
  \<open>properties\<close> keep their names; \<open>length\<close>, \<open>id\<close>, \<open>value\<close> and \<open>properties\<close> get a
  suffix.
\<close>

datatype jsvalue = JUndefined | JNull | JString string | JOther

text \<open>
  A parameter of \<open>req.query\<close>: the string given in the URL, an array when the parameter
  is repeated, an object when it is written with brackets. \<open>to_string\<close> is the
  conversion that \<open>parseInt\<close> applies to its argument: an array is its elements joined
  by commas, an object (one without a \<open>toString\<close> or \<open>valueOf\<close> key of its own) is
  \<open>[object Object]\<close>.
\<close>

datatype qvalue = QString string | QArray "qvalue list" | QObject

fun join_comma :: "string list \<Rightarrow> string" where
  "join_comma [] = []"
| "join_comma [x] = x"
| "join_comma (x # y # r) = x @ '','' @ join_comma (y # r)"

fun to_string :: "qvalue \<Rightarrow> string" where
  "to_string (QString s) = s"
| "to_string (QArray xs) = join_comma (map to_string xs)"
| "to_string QObject = ''[object Object]''"

record properties =
  length_p :: nat
  is_palindrome :: bool
  unique_characters :: nat
  word_count :: nat
  sha256_hash :: string
  character_frequency_map :: "(char \<times> nat) list"

record string_record =
  id_r :: string
  value_r :: string
  properties_r :: properties
  created_at :: string

text \<open>
  \<open>character_frequency_map[char] = (character_frequency_map[char] || 0) + 1\<close>. A
  JavaScript object lists the keys that are array indices, here the digits, first and in
  ascending order, then the other keys in the order of their first occurrence.
\<close>

fun bump :: "(char \<times> nat) list \<Rightarrow> char \<Rightarrow> (char \<times> nat) list" where
  "bump [] c = [(c, 1)]"
| "bump ((k, n) # m) c = (if k = c then (k, n + 1) # m else (k, n) # bump m c)"

definition own_keys_order :: "(char \<times> nat) list \<Rightarrow> (char \<times> nat) list" where
  "own_keys_order m =
     sort_key (\<lambda>e. code (fst e)) (filter (\<lambda>e. is_digit (fst e)) m)
     @ filter (\<lambda>e. \<not> is_digit (fst e)) m"

text \<open>
  \<open>analyzeString(value)\<close> of \<open>server.js\<close>; \<open>now\<close> is the value of
  \<open>new Date().toISOString()\<close> at the call, for instance \<open>example_time\<close>.
\<close>

definition example_time :: string where
  "example_time = ''2025-10-20T12:00:00.000Z''"

definition analyzeString :: "string \<Rightarrow> string \<Rightarrow> string_record" where
  "analyzeString now val =
     (let lowerValue = toLowerCase val;
          sha256_hash = sha256 val
      in \<lparr> id_r = sha256_hash,
           value_r = val,
           properties_r = \<lparr>
             length_p = length val,
             is_palindrome = (lowerValue = rev lowerValue),
             unique_characters = card (set val),
             word_count = (if trim val = [] then 0 else length (split_ws (trim val))),
             sha256_hash = sha256_hash,
             character_frequency_map = own_keys_order (foldl bump [] val) \<rparr>,
           created_at = now \<rparr>)"

section \<open>The store (\<open>let strings = new Map()\<close>)\<close>

text \<open>
  A JavaScript \<open>Map\<close> keeps its entries in insertion order: an association list, with
  \<open>has\<close>, \<open>get\<close>, \<open>set\<close> (here \<open>set_entry\<close>: the value of a present key is replaced
  in place, a new key goes to the end), \<open>delete\<close> (which tells whether the key was
  there) and \<open>values\<close> (here \<open>values_of\<close>).
\<close>

type_synonym store = "(string \<times> string_record) list"

definition has :: "store \<Rightarrow> string \<Rightarrow> bool" where
  "has m k = (k \<in> set (map fst m))"

definition get :: "store \<Rightarrow> string \<Rightarrow> string_record option" where
  "get m k = map_of m k"

fun set_entry :: "store \<Rightarrow> string \<Rightarrow> string_record \<Rightarrow> store" where
  "set_entry [] k v = [(k, v)]"
| "set_entry ((k', v') # m) k v = (if k' = k then (k, v) # m else (k', v') # set_entry m k v)"

definition delete :: "store \<Rightarrow> string \<Rightarrow> bool \<times> store" where
  "delete m k = (has m k, filter (\<lambda>e. fst e \<noteq> k) m)"

definition values_of :: "store \<Rightarrow> string_record list" where
  "values_of m = map snd m"

section \<open>Responses\<close>

record filters =
  is_palindrome_f :: "bool option"
  word_count_f :: "number option"
  min_length_f :: "number option"
  max_length_f :: "number option"
  contains_character_f :: "string option"
  value_contains_f :: "string option"

definition no_filters :: filters where
  "no_filters = \<lparr> is_palindrome_f = None, word_count_f = None, min_length_f = None,
     max_length_f = None, contains_character_f = None, value_contains_f = None \<rparr>"

text \<open>
  A response is its status with its JSON body: \<open>Error\<close> with the status and the
  message, \<open>Created\<close> (201) and \<open>Found\<close> (200) with one record, \<open>Listed\<close> (200) with
  \<open>data\<close>, \<open>count\<close> and \<open>filters_applied\<close>, \<open>Interpreted\<close> (200) with \<open>data\<close>,
  \<open>count\<close> and the \<open>original\<close> and \<open>parsed_filters\<close> of \<open>interpreted_query\<close>,
  \<open>NoContent\<close> (204). \<open>Threw\<close> is a handler that throws the error named: Express
  answers it with status 500.
\<close>

datatype response =
    Error nat string
  | Created string_record
  | Found string_record
  | Listed "string_record list" nat filters
  | Interpreted "string_record list" nat string filters
  | NoContent
  | Threw string

section \<open>\<open>POST /strings\<close>, \<open>GET /strings/:value\<close>, \<open>DELETE /strings/:value\<close>\<close>

definition post_strings :: "string \<Rightarrow> store \<Rightarrow> jsvalue \<Rightarrow> response \<times> store" where
  "post_strings now strings val =
     (case val of
        JUndefined \<Rightarrow> (Error 400 ''Missing 'value' field.'', strings)
      | JNull \<Rightarrow> (Error 400 ''Missing 'value' field.'', strings)
      | JOther \<Rightarrow> (Error 422 ''Invalid data type for 'value'. Must be a string.'', strings)
      | JString v \<Rightarrow>
          (let trimmedValue = trim v in
           if trimmedValue = [] then (Error 400 ''Value cannot be an empty string.'', strings)
           else (let analyzed = analyzeString now trimmedValue in
                 if has strings (id_r analyzed)
                 then (Error 409 ''String already exists in the system.'', strings)
                 else (Created analyzed, set_entry strings (id_r analyzed) analyzed))))"

definition get_string :: "string \<Rightarrow> store \<Rightarrow> string \<Rightarrow> response" where
  "get_string now strings searchValue =
     (let tempAnalyzed = analyzeString now searchValue;
          idToSearch = id_r tempAnalyzed
      in case get strings idToSearch of
           Some foundString \<Rightarrow> Found foundString
         | None \<Rightarrow> Error 404 ''String not found'')"

definition delete_string :: "string \<Rightarrow> store \<Rightarrow> string \<Rightarrow> response \<times> store" where
  "delete_string now strings deleteValue =
     (let tempAnalyzed = analyzeString now deleteValue;
          idToDelete = id_r tempAnalyzed
      in case delete strings idToDelete of
           (True, strings') \<Rightarrow> (NoContent, strings')
         | (False, strings') \<Rightarrow> (Error 404 ''String not found'', strings'))"

section \<open>\<open>GET /strings\<close>: the structured query\<close>

text \<open>\<open>req.query\<close>, each parameter absent (\<open>undefined\<close>) or present.\<close>

record query =
  is_palindrome_q :: "qvalue option"
  min_length_q :: "qvalue option"
  max_length_q :: "qvalue option"
  word_count_q :: "qvalue option"
  contains_character_q :: "qvalue option"

text \<open>
  The handler runs five blocks in turn over \<open>results\<close> and \<open>filters_applied\<close>; each
  block either ends the request at once (the 400 response, or the \<open>TypeError\<close> of
  calling \<open>toLowerCase\<close> on a parameter that is not a string) or filters \<open>results\<close>
  and goes on.
\<close>

type_synonym progress = "string_record list \<times> filters"

definition block_is_palindrome :: "query \<Rightarrow> progress \<Rightarrow> response + progress" where
  "block_is_palindrome q a =
     (case is_palindrome_q q of
        None \<Rightarrow> Inr a
      | Some (QString p) \<Rightarrow>
          (let isPalindrome = toLowerCase p in
           if isPalindrome \<noteq> ''true'' \<and> isPalindrome \<noteq> ''false''
           then Inl (Error 400 ''Invalid value for is_palindrome. Must be 'true' or 'false'.'')
           else (let boolValue = (isPalindrome = ''true'')
                 in Inr (filter (\<lambda>s. is_palindrome (properties_r s) = boolValue) (fst a),
                         (snd a)\<lparr>is_palindrome_f := Some boolValue\<rparr>)))
      | Some _ \<Rightarrow> Inl (Threw ''TypeError: filters.is_palindrome.toLowerCase is not a function''))"

definition block_min_length :: "query \<Rightarrow> progress \<Rightarrow> response + progress" where
  "block_min_length q a =
     (case min_length_q q of
        None \<Rightarrow> Inr a
      | Some p \<Rightarrow>
          (let minLength = parseInt10 (to_string p) in
           if minLength = NaN \<or> js_less minLength (Num 0)
           then Inl (Error 400 ''Invalid value for min_length. Must be a non-negative integer.'')
           else Inr (filter (\<lambda>s. js_ge (Num (int (length_p (properties_r s)))) minLength) (fst a),
                     (snd a)\<lparr>min_length_f := Some minLength\<rparr>)))"

definition block_max_length :: "query \<Rightarrow> progress \<Rightarrow> response + progress" where
  "block_max_length q a =
     (case max_length_q q of
        None \<Rightarrow> Inr a
      | Some p \<Rightarrow>
          (let maxLength = parseInt10 (to_string p) in
           if maxLength = NaN \<or> js_less maxLength (Num 0)
           then Inl (Error 400 ''Invalid value for max_length. Must be a non-negative integer.'')
           else Inr (filter (\<lambda>s. js_le (Num (int (length_p (properties_r s)))) maxLength) (fst a),
                     (snd a)\<lparr>max_length_f := Some maxLength\<rparr>)))"

definition block_word_count :: "query \<Rightarrow> progress \<Rightarrow> response + progress" where
  "block_word_count q a =
     (case word_count_q q of
        None \<Rightarrow> Inr a
      | Some p \<Rightarrow>
          (let wordCount = parseInt10 (to_string p) in
           if wordCount = NaN \<or> js_less wordCount (Num 0)
           then Inl (Error 400 ''Invalid value for word_count. Must be a non-negative integer.'')
           else Inr (filter (\<lambda>s. js_eq (Num (int (word_count (properties_r s)))) wordCount) (fst a),
                     (snd a)\<lparr>word_count_f := Some wordCount\<rparr>)))"

definition block_contains_character :: "query \<Rightarrow> progress \<Rightarrow> response + progress" where
  "block_contains_character q a =
     (case contains_character_q q of
        None \<Rightarrow> Inr a
      | Some (QString char) \<Rightarrow>
          if length char > 1
          then Inl (Error 400 ''Invalid value for contains_character. Must be a single character string.'')
          else (let lowerChar = toLowerCase char
                in Inr (filter (\<lambda>s. includes_str (toLowerCase (value_r s)) lowerChar) (fst a),
                        (snd a)\<lparr>contains_character_f := Some char\<rparr>))
      | Some _ \<Rightarrow>
          Inl (Error 400 ''Invalid value for contains_character. Must be a single character string.''))"

definition and_then :: "response + progress \<Rightarrow> (progress \<Rightarrow> response + progress) \<Rightarrow> response + progress" where
  "and_then r f = (case r of Inl e \<Rightarrow> Inl e | Inr a \<Rightarrow> f a)"

definition get_strings :: "store \<Rightarrow> query \<Rightarrow> response" where
  "get_strings strings q =
     (case and_then (and_then (and_then (and_then
              (block_is_palindrome q (values_of strings, no_filters))
              (block_min_length q)) (block_max_length q)) (block_word_count q))
              (block_contains_character q) of
        Inl e \<Rightarrow> e
      | Inr (results, filters_applied) \<Rightarrow> Listed results (length results) filters_applied)"

section \<open>\<open>GET /strings/filter-by-natural-language\<close>\<close>

text \<open>
  \<open>lowerQuery.match(re)\<close> without the \<open>g\<close> flag tries the expression at each position
  from the left and returns the first match; \<open>search\<close> does so for a matcher of the
  expression anchored at the start of its argument.
\<close>

fun search :: "(string \<Rightarrow> 'a option) \<Rightarrow> string \<Rightarrow> 'a option" where
  "search m [] = m []"
| "search m (c # cs) = (case m (c # cs) of Some r \<Rightarrow> Some r | None \<Rightarrow> search m cs)"

text \<open>
  \<open>/longer than\s*(\d+)/\<close> and \<open>/shorter than\s*(\d+)/\<close> at the start of \<open>s\<close>: the words,
  every white space that follows, then every digit that follows, at least one; the
  result is the group \<open>(\d+)\<close>.
\<close>

definition than_at :: "string \<Rightarrow> string \<Rightarrow> string option" where
  "than_at words s =
     (if startsWith s words
      then (let ds = takeWhile is_digit (dropWhile is_space (drop (length words) s))
            in if ds = [] then None else Some ds)
      else None)"

text \<open>
  \<open>/contain(?:ing)? the letter (\w)/\<close> at the start of \<open>s\<close>: the optional \<open>ing\<close> is tried
  first, then the match without it.
\<close>

definition the_letter_at :: "string \<Rightarrow> string option" where
  "the_letter_at s =
     (if startsWith s '' the letter ''
      then (case drop 12 s of [] \<Rightarrow> None | c # r \<Rightarrow> if is_word_char c then Some [c] else None)
      else None)"

definition contain_at :: "string \<Rightarrow> string option" where
  "contain_at s =
     (if startsWith s ''contain''
      then (case (if startsWith (drop 7 s) ''ing'' then the_letter_at (drop 10 s) else None) of
              Some c \<Rightarrow> Some c
            | None \<Rightarrow> the_letter_at (drop 7 s))
      else None)"

text \<open>
  Blocks 1 to 5 of the handler build \<open>filters\<close> from the lower-cased query, starting
  from \<open>{}\<close>.
\<close>

definition palindrome_filter :: "string \<Rightarrow> filters \<Rightarrow> filters" where
  "palindrome_filter lowerQuery f =
     (let isNegativePalindrome = (includes_str lowerQuery ''non-palindrome''
                                  \<or> includes_str lowerQuery ''not palindrome'');
          isPositivePalindrome = (includes_str lowerQuery ''palindrome'' \<and> \<not> isNegativePalindrome);
          f1 = (if isPositivePalindrome then f\<lparr>is_palindrome_f := Some True\<rparr> else f)
      in if isNegativePalindrome then f1\<lparr>is_palindrome_f := Some False\<rparr> else f1)"

definition word_count_filter :: "string \<Rightarrow> filters \<Rightarrow> filters" where
  "word_count_filter lowerQuery f =
     (if includes_str lowerQuery ''single word'' then f\<lparr>word_count_f := Some (Num 1)\<rparr> else f)"

definition length_filters :: "string \<Rightarrow> filters \<Rightarrow> filters" where
  "length_filters lowerQuery f =
     (let f1 = (case search (than_at ''longer than'') lowerQuery of
                  Some ds \<Rightarrow> f\<lparr>min_length_f := Some (js_add (parseInt10 ds) 1)\<rparr>
                | None \<Rightarrow> f)
      in case search (than_at ''shorter than'') lowerQuery of
           Some ds \<Rightarrow> f1\<lparr>max_length_f := Some (js_add (parseInt10 ds) (- 1))\<rparr>
         | None \<Rightarrow> f1)"

definition character_filter :: "string \<Rightarrow> filters \<Rightarrow> filters" where
  "character_filter lowerQuery f =
     (if includes_str lowerQuery ''first vowel'' then f\<lparr>contains_character_f := Some ''a''\<rparr>
      else (case search contain_at lowerQuery of
              Some c \<Rightarrow> f\<lparr>contains_character_f := Some c\<rparr>
            | None \<Rightarrow> f))"

definition default_filter :: "string \<Rightarrow> filters \<Rightarrow> filters" where
  "default_filter lowerQuery f =
     (if f = no_filters then f\<lparr>value_contains_f := Some lowerQuery\<rparr> else f)"

definition parse_filters :: "string \<Rightarrow> filters" where
  "parse_filters lowerQuery =
     default_filter lowerQuery (character_filter lowerQuery (length_filters lowerQuery
       (word_count_filter lowerQuery (palindrome_filter lowerQuery no_filters))))"

text \<open>Block 6 of the handler: the filters run one after the other over \<open>results\<close>.\<close>

definition execute_filtering :: "filters \<Rightarrow> string_record list \<Rightarrow> string_record list" where
  "execute_filtering f results =
     (let r1 = (case is_palindrome_f f of None \<Rightarrow> results
                | Some b \<Rightarrow> filter (\<lambda>s. is_palindrome (properties_r s) = b) results);
          r2 = (case word_count_f f of None \<Rightarrow> r1
                | Some n \<Rightarrow> filter (\<lambda>s. js_eq (Num (int (word_count (properties_r s)))) n) r1);
          r3 = (case min_length_f f of None \<Rightarrow> r2
                | Some n \<Rightarrow> filter (\<lambda>s. js_ge (Num (int (length_p (properties_r s)))) n) r2);
          r4 = (case max_length_f f of None \<Rightarrow> r3
                | Some n \<Rightarrow> filter (\<lambda>s. js_le (Num (int (length_p (properties_r s)))) n) r3);
          r5 = (case contains_character_f f of None \<Rightarrow> r4
                | Some c \<Rightarrow> filter (\<lambda>s. includes_str (toLowerCase (value_r s)) (toLowerCase c)) r4);
          r6 = (case value_contains_f f of None \<Rightarrow> r5
                | Some t \<Rightarrow> filter (\<lambda>s. includes_str (toLowerCase (value_r s)) t) r5)
      in r6)"

definition filter_by_natural_language :: "store \<Rightarrow> jsvalue \<Rightarrow> response" where
  "filter_by_natural_language strings query =
     (case query of
        JString q \<Rightarrow>
          if q = [] then Error 400 ''Missing or invalid 'query' parameter''
          else (let lowerQuery = toLowerCase q in
                if trim lowerQuery = []
                then Interpreted (values_of strings) (length strings) [] no_filters
                else (let filters = parse_filters lowerQuery;
                          results = execute_filtering filters (values_of strings)
                      in Interpreted results (length results) q filters))
      | _ \<Rightarrow> Error 400 ''Missing or invalid 'query' parameter'')"

section \<open>Notions of the specification\<close>

text \<open>
  The words of a string: its maximal runs of characters that are not white space, from
  left to right.
\<close>

function tokens :: "string \<Rightarrow> string list" where
  "tokens [] = []"
| "tokens (c # cs) =
     (if is_space c then tokens cs
      else takeWhile (\<lambda>x. \<not> is_space x) (c # cs) # tokens (dropWhile (\<lambda>x. \<not> is_space x) cs))"
  by pat_completeness auto
termination
  by (relation "measure length") (auto simp: length_dropWhile_le less_Suc_eq_le)

text \<open>
  The store holds at most one record per id: no key occurs twice and every record is
  kept under its own id.
\<close>

definition one_record_per_id :: "store \<Rightarrow> bool" where
  "one_record_per_id strings =
     (distinct (map fst strings) \<and> list_all (\<lambda>e. id_r (snd e) = fst e) strings)"

text \<open>
  Every record of the store is kept under the digest of its own value.
\<close>

definition filed_by_digest :: "store \<Rightarrow> bool" where
  "filed_by_digest strings =
     (distinct (map fst strings) \<and> list_all (\<lambda>e. fst e = sha256 (value_r (snd e))) strings)"

text \<open>
  A case-insensitive substring test: the lower-cased text occurs in the lower-cased
  value as a contiguous part.
\<close>

definition contains_ci :: "string \<Rightarrow> string \<Rightarrow> bool" where
  "contains_ci v t = sublist (toLowerCase t) (toLowerCase v)"

text \<open>
  A record meets a filter specification when it satisfies every predicate that is
  present: the palindrome flag is the one asked for, the length is at least the minimum
  and at most the maximum (both bounds inclusive), the word count is the one asked for,
  and the value contains the character, and the text, whatever the letter case. No
  length is at least \<open>+Infinity\<close> or at most \<open>-Infinity\<close>, and none compares with \<open>NaN\<close>.
\<close>

definition at_least :: "number \<Rightarrow> nat \<Rightarrow> bool" where
  "at_least n len = (case n of Num k \<Rightarrow> k \<le> int len | NegInf \<Rightarrow> True | _ \<Rightarrow> False)"

definition at_most :: "number \<Rightarrow> nat \<Rightarrow> bool" where
  "at_most n len = (case n of Num k \<Rightarrow> int len \<le> k | PosInf \<Rightarrow> True | _ \<Rightarrow> False)"

definition exactly :: "number \<Rightarrow> nat \<Rightarrow> bool" where
  "exactly n len = (n = Num (int len))"

definition meets :: "filters \<Rightarrow> string_record \<Rightarrow> bool" where
  "meets f s =
     ((case is_palindrome_f f of None \<Rightarrow> True | Some b \<Rightarrow> is_palindrome (properties_r s) = b)
      \<and> (case min_length_f f of None \<Rightarrow> True | Some n \<Rightarrow> at_least n (length_p (properties_r s)))
      \<and> (case max_length_f f of None \<Rightarrow> True | Some n \<Rightarrow> at_most n (length_p (properties_r s)))
      \<and> (case word_count_f f of None \<Rightarrow> True | Some n \<Rightarrow> exactly n (word_count (properties_r s)))
      \<and> (case contains_character_f f of None \<Rightarrow> True | Some c \<Rightarrow> contains_ci (value_r s) c)
      \<and> (case value_contains_f f of None \<Rightarrow> True | Some t \<Rightarrow> contains_ci (value_r s) t))"

text \<open>
  The filter specification that the parameters of a structured query ask for: each
  parameter that is present gives its predicate, the flag from \<open>true\<close> or \<open>false\<close>, the
  numbers as \<open>parseInt\<close> reads them, the character as it is.
\<close>

definition requested :: "query \<Rightarrow> filters" where
  "requested q =
     \<lparr> is_palindrome_f = (case is_palindrome_q q of
                            Some (QString p) \<Rightarrow> Some (toLowerCase p = ''true'') | _ \<Rightarrow> None),
       word_count_f = map_option (\<lambda>p. parseInt10 (to_string p)) (word_count_q q),
       min_length_f = map_option (\<lambda>p. parseInt10 (to_string p)) (min_length_q q),
       max_length_f = map_option (\<lambda>p. parseInt10 (to_string p)) (max_length_q q),
       contains_character_f = (case contains_character_q q of
                                 Some (QString c) \<Rightarrow> Some c | _ \<Rightarrow> None),
       value_contains_f = None \<rparr>"

text \<open>
  A structured query is acceptable when each parameter that is present is of the form
  the specification asks for: \<open>true\<close> or \<open>false\<close> in any letter case, a non-negative
  integer written in decimal digits, exactly one character.
\<close>

definition natural_literal :: "qvalue option \<Rightarrow> bool" where
  "natural_literal p =
     (case p of None \<Rightarrow> True
      | Some (QString ds) \<Rightarrow> ds \<noteq> [] \<and> list_all is_digit ds
      | Some _ \<Rightarrow> False)"

definition acceptable :: "query \<Rightarrow> bool" where
  "acceptable q =
     ((case is_palindrome_q q of None \<Rightarrow> True
       | Some (QString p) \<Rightarrow> toLowerCase p = ''true'' \<or> toLowerCase p = ''false''
       | Some _ \<Rightarrow> False)
      \<and> natural_literal (min_length_q q) \<and> natural_literal (max_length_q q)
      \<and> natural_literal (word_count_q q)
      \<and> (case contains_character_q q of None \<Rightarrow> True
          | Some (QString c) \<Rightarrow> length c = 1
          | Some _ \<Rightarrow> False))"

text \<open>
  What each block of \<open>GET /strings\<close> keeps: the results are the records that meet the
  filters applied so far, these filters are the requested ones for the blocks that have
  run, and the filters of the later blocks are still absent.
\<close>

definition sound :: "store \<Rightarrow> query \<Rightarrow> nat \<Rightarrow> progress \<Rightarrow> bool" where
  "sound strings q k a =
     (fst a = filter (meets (snd a)) (values_of strings)
      \<and> is_palindrome_f (snd a) = (if 1 \<le> k then is_palindrome_f (requested q) else None)
      \<and> min_length_f (snd a) = (if 2 \<le> k then min_length_f (requested q) else None)
      \<and> max_length_f (snd a) = (if 3 \<le> k then max_length_f (requested q) else None)
      \<and> word_count_f (snd a) = (if 4 \<le> k then word_count_f (requested q) else None)
      \<and> contains_character_f (snd a) = (if 5 \<le> k then contains_character_f (requested q) else None)
      \<and> value_contains_f (snd a) = None)"

text \<open>
  The regular expressions, as relations. \<open>/WORDS\s*(\d+)/\<close> matches at the start of
  \<open>s\<close> with group \<open>ds\<close> when \<open>s\<close> is the words, white space, the digits \<open>ds\<close> (at
  least one, and as many as there are), and the rest. \<open>/contain(?:ing)? the letter (\w)/\<close>
  matches at the start of \<open>s\<close> with group \<open>c\<close> when \<open>s\<close> is \<open>contain\<close> or
  \<open>containing\<close>, then \<open>" the letter "\<close>, then the word character \<open>c\<close>, and the rest.
\<close>

definition matches_here :: "string \<Rightarrow> string \<Rightarrow> string \<Rightarrow> bool" where
  "matches_here words s ds =
     (\<exists>ws rest. s = words @ ws @ ds @ rest \<and> (\<forall>c\<in>set ws. is_space c)
        \<and> ds \<noteq> [] \<and> (\<forall>c\<in>set ds. is_digit c) \<and> (rest = [] \<or> \<not> is_digit (hd rest)))"

definition letter_here :: "string \<Rightarrow> string \<Rightarrow> bool" where
  "letter_here s c =
     (\<exists>ing x rest. s = ''contain'' @ ing @ '' the letter '' @ [x] @ rest
        \<and> (ing = [] \<or> ing = ''ing'') \<and> is_word_char x \<and> c = [x])"

section \<open>Facts about the string primitives\<close>

lemma char_of_eval:
  "char_of (n::nat) = Char (odd n) (odd (n div 2)) (odd (n div 4)) (odd (n div 8))
     (odd (n div 16)) (odd (n div 32)) (odd (n div 64)) (odd (n div 128))"
  by (simp add: char_of_def bit_iff_odd)

lemma startsWith_prefix: "startsWith s t = prefix t s"
  by (auto simp: startsWith_def prefix_def take_is_prefix) (metis append_eq_conv_conj)

text \<open>\<open>includes\<close> is the library's contiguous-sublist relation.\<close>

lemma includes_str_sublist: "includes_str s t = sublist t s"
  by (induction s) (auto simp: startsWith_prefix sublist_Cons_right)

lemma all_space_dropWhile: "(\<forall>c\<in>set (dropWhile is_space s). is_space c) \<longleftrightarrow> (\<forall>c\<in>set s. is_space c)"
  by (induction s) auto

lemma trim_empty_iff: "trim s = [] \<longleftrightarrow> (\<forall>c\<in>set s. is_space c)"
proof -
  have "trim s = [] \<longleftrightarrow> (\<forall>c\<in>set (dropWhile is_space s). is_space c)"
    by (simp add: trim_def)
  then show ?thesis
    by (simp add: all_space_dropWhile)
qed

lemma code_char_of: "n < 256 \<Longrightarrow> code (char_of n) = n"
  by (simp add: code_def)

lemma code_lower_char:
  "code (lower_char c) =
     (if (65 \<le> code c \<and> code c \<le> 90) \<or> (192 \<le> code c \<and> code c \<le> 222 \<and> code c \<noteq> 215)
      then code c + 32 else code c)"
  by (simp add: lower_char_def code_char_of)

lemma is_space_lower_char: "is_space (lower_char c) = is_space c"
  by (auto simp: is_space_def code_lower_char)

lemma lower_char_idem: "lower_char (lower_char c) = lower_char c"
proof -
  have "code (lower_char (lower_char c)) = code (lower_char c)"
    by (simp add: code_lower_char)
  then show ?thesis by (simp add: code_def)
qed

lemma toLowerCase_idem: "toLowerCase (toLowerCase s) = toLowerCase s"
  by (simp add: toLowerCase_def lower_char_idem)

lemma trim_toLowerCase_empty: "trim (toLowerCase s) = [] \<longleftrightarrow> trim s = []"
  by (simp add: trim_empty_iff toLowerCase_def is_space_lower_char)

section \<open>Word count\<close>

lemma tokens_dropWhile_space: "tokens (dropWhile is_space s) = tokens s"
  by (induction s) auto

lemma tokens_snoc_space: "is_space c \<Longrightarrow> tokens (s @ [c]) = tokens s"
proof (induction s rule: tokens.induct)
  case 1
  then show ?case by simp
next
  case (2 a cs)
  show ?case
  proof (cases "is_space a")
    case True
    with 2 show ?thesis by simp
  next
    case False
    show ?thesis
    proof (cases "\<forall>x\<in>set cs. \<not> is_space x")
      case True
      then have tk: "takeWhile (\<lambda>x. \<not> is_space x) cs = cs"
        and dk: "dropWhile (\<lambda>x. \<not> is_space x) cs = []"
        by simp_all
      have "takeWhile (\<lambda>x. \<not> is_space x) (cs @ [c]) = cs"
        and "dropWhile (\<lambda>x. \<not> is_space x) (cs @ [c]) = [c]"
        using True 2(3) by (simp_all add: takeWhile_append2 dropWhile_append2)
      with False 2(3) show ?thesis by (simp add: tk dk)
    next
      case ex: False
      then have d: "dropWhile (\<lambda>x. \<not> is_space x) (cs @ [c]) = dropWhile (\<lambda>x. \<not> is_space x) cs @ [c]"
        by (auto simp: dropWhile_append1)
      from ex have t: "takeWhile (\<lambda>x. \<not> is_space x) (cs @ [c]) = takeWhile (\<lambda>x. \<not> is_space x) cs"
        by (auto simp: takeWhile_append1)
      from False 2(2)[OF False 2(3)] d t show ?thesis by simp
    qed
  qed
qed

lemma tokens_strip_right: "tokens (rev (dropWhile is_space (rev s))) = tokens s"
  by (induction s rule: rev_induct) (auto simp: tokens_snoc_space)

lemma tokens_trim: "tokens (trim s) = tokens s"
  by (simp add: trim_def tokens_strip_right tokens_dropWhile_space)

lemma split_ws_from_tokens:
  "s \<noteq> [] \<Longrightarrow> \<not> is_space (last s) \<Longrightarrow>
   split_ws_from cur s = (cur @ takeWhile (\<lambda>x. \<not> is_space x) s) # tokens (dropWhile (\<lambda>x. \<not> is_space x) s)"
proof (induction cur s rule: split_ws_from.induct)
  case (1 cur)
  then show ?case by simp
next
  case (2 cur c)
  then show ?case by simp
next
  case (3 cur c d cs)
  then show ?case by auto
qed

lemma hd_strip_right:
  "rev (dropWhile P (rev d)) \<noteq> [] \<Longrightarrow> hd (rev (dropWhile P (rev d))) = hd d"
proof (induction d rule: rev_induct)
  case Nil
  then show ?case by simp
next
  case (snoc x xs)
  show ?case
  proof (cases "P x")
    case True
    with snoc have "rev (dropWhile P (rev xs)) \<noteq> []" by simp
    with snoc.IH have "hd (rev (dropWhile P (rev xs))) = hd xs" and "xs \<noteq> []" by auto
    with True show ?thesis by simp
  next
    case False
    then show ?thesis by simp
  qed
qed

lemma trim_hd_last: 
  assumes ne: "trim s \<noteq> []"
  shows "\<not> is_space (hd (trim s)) \<and> \<not> is_space (last (trim s))"
proof -
  let ?d = "dropWhile is_space s"
  let ?t = "rev ?d"
  have t: "trim s = rev (dropWhile is_space ?t)" by (simp add: trim_def)
  with ne have ne2: "dropWhile is_space ?t \<noteq> []" by simp
  then have l: "\<not> is_space (hd (dropWhile is_space ?t))" by (rule hd_dropWhile)
  have "last (trim s) = hd (dropWhile is_space ?t)" using ne2 t by (simp add: last_rev)
  with l have A: "\<not> is_space (last (trim s))" by simp
  have "?d \<noteq> []"
  proof
    assume e: "?d = []"
    have "dropWhile is_space (rev ?d) = []" unfolding e by simp
    with ne2 show False by contradiction
  qed
  then have "\<not> is_space (hd ?d)" by (rule hd_dropWhile)
  moreover have "hd (trim s) = hd ?d" using hd_strip_right[of is_space ?d] ne t by simp
  ultimately show ?thesis using A by simp
qed

lemma split_ws_trim: 
  assumes ne: "trim s \<noteq> []"
  shows "split_ws (trim s) = tokens s"
proof -
  from trim_hd_last[OF ne] have h: "\<not> is_space (hd (trim s))" and l: "\<not> is_space (last (trim s))" by auto
  from ne obtain c cs where t: "trim s = c # cs" by (cases "trim s") auto
  with h have c: "\<not> is_space c" by simp
  have "split_ws (trim s) = takeWhile (\<lambda>x. \<not> is_space x) (trim s) # tokens (dropWhile (\<lambda>x. \<not> is_space x) (trim s))"
    using split_ws_from_tokens[OF ne l, of "[]"] by (simp add: split_ws_def)
  also have "\<dots> = tokens (trim s)" using t c by simp
  finally show ?thesis by (simp add: tokens_trim)
qed

lemma tokens_all_space: "(\<forall>c\<in>set s. is_space c) \<Longrightarrow> tokens s = []"
  by (induction s) auto

text \<open>
  C8. For every string given to \<open>analyzeString\<close>, \<open>word_count\<close> is the number of words
  of the value, that is of its maximal runs of characters that are not white space; when
  the trimmed value is not empty these words are exactly the pieces that
  \<open>value.trim().split(/\s+/)\<close> returns, and when the value is empty or white space only
  the count is 0, not the 1 that \<open>split\<close> alone would give.
\<close>

theorem analyzeString_word_count:
  "word_count (properties_r (analyzeString now v)) = length (tokens v)
   \<and> (trim v \<noteq> [] \<longrightarrow> split_ws (trim v) = tokens v)
   \<and> ((\<forall>c\<in>set v. is_space c) \<longrightarrow> word_count (properties_r (analyzeString now v)) = 0)
   \<and> length (split_ws []) = 1"
  using split_ws_trim[of v] tokens_all_space[of v]
  by (auto simp: analyzeString_def Let_def trim_empty_iff split_ws_def)

theorem analyzeString_word_count_witness:
  "word_count (properties_r (analyzeString ''2025-10-20T12:00:00.000Z'' ''one two  three'')) = 3
   \<and> split_ws (trim ''one two  three'') = [''one'', ''two'', ''three'']
   \<and> word_count (properties_r (analyzeString ''2025-10-20T12:00:00.000Z'' ''  '')) = 0"
proof -
  have t: "tokens ''one two  three'' = [''one'', ''two'', ''three'']"
    by (simp add: is_space_def code_def)
  have ne: "trim ''one two  three'' \<noteq> []"
    by (simp add: trim_def is_space_def code_def)
  have sp: "\<forall>c\<in>set ''  ''. is_space c"
    by (simp add: is_space_def code_def)
  show ?thesis
    using analyzeString_word_count[of "''2025-10-20T12:00:00.000Z''" "''one two  three''"]
      analyzeString_word_count[of "''2025-10-20T12:00:00.000Z''" "''  ''"] t ne sp
    by simp
qed

section \<open>Two digests\<close>

text \<open>The digest of a message of seven bytes takes one block.\<close>

lemmas sha_round_defs = compress_def K256_def H256_def slide_def ssig0_def ssig1_def bsig0_def bsig1_def
  rotr_def w32_def

lemma zeros48: "replicate 48 (0::nat) = [0,0,0,0,0,0,0,0,0,0,0,0,0,0,0,0,0,0,0,0,0,0,0,0,0,0,0,0,0,0,0,0,0,0,0,0,0,0,0,0,0,0,0,0,0,0,0,0]"
  by (simp add: eval_nat_numeral)

lemma bits56: "map (\<lambda>i. (56::nat) div 256 ^ (7 - i) mod 256) [0..<8] = [0,0,0,0,0,0,0,56]"
  by (simp add: upt_rec)

lemma block_of_7_bytes:
  "be_words (pad [a, b, c, d, e, f, g]) =
     [((a * 256 + b) * 256 + c) * 256 + d, ((e * 256 + f) * 256 + g) * 256 + 128,
      0, 0, 0, 0, 0, 0, 0, 0, 0, 0, 0, 0, 0, 56]"
proof -
  have l: "length [a, b, c, d, e, f, g] = 7" by simp
  show ?thesis unfolding pad_def l by (simp add: zeros48 bits56)
qed

lemma sha256_7_bytes:
  "utf8 s = [a, b, c, d, e, f, g] \<Longrightarrow>
   sha256 s = concat (map hex32 (compress H256 
     [((a * 256 + b) * 256 + c) * 256 + d, ((e * 256 + f) * 256 + g) * 256 + 128,
      0, 0, 0, 0, 0, 0, 0, 0, 0, 0, 0, 0, 0, 56]))"
  by (simp add: sha256_def block_of_7_bytes)

lemma compress_racecar:
  "compress H256 [1918985061, 1667330688, 0, 0, 0, 0, 0, 0, 0, 0, 0, 0, 0, 0, 0, 56] =
    [3759120117, 446035688, 1418079981, 685510426, 1760646361, 4150123908, 447745510, 3991478427]"
  by (simp add: sha_round_defs)

lemma sha256_racecar:
  "sha256 ''racecar'' = ''e00f9ef51a95f6e854862eed28dc0f1a68f154d9f75ddd841ab00de6ede9209b''"
proof -
  have u: "utf8 ''racecar'' = [114, 97, 99, 101, 99, 97, 114]"
    by (simp add: utf8_def code_def)
  show ?thesis
    unfolding sha256_7_bytes[OF u]
    by (simp add: compress_racecar hex32_def upt_rec)
qed

lemma compress_Racecar:
  "compress H256 [1382114149, 1667330688, 0, 0, 0, 0, 0, 0, 0, 0, 0, 0, 0, 0, 0, 56] =
    [2940191476, 417612780, 3143307511, 2236719669, 3326902728, 337349198, 1320199852, 3105288917]"
  by (simp add: sha_round_defs)

lemma sha256_Racecar:
  "sha256 ''Racecar'' = ''af3fc2f418e443ecbb5b10f78551a235c64c81c8141b8a4e4eb0a6acb916f2d5''"
proof -
  have u: "utf8 ''Racecar'' = [82, 97, 99, 101, 99, 97, 114]"
    by (simp add: utf8_def code_def)
  show ?thesis
    unfolding sha256_7_bytes[OF u]
    by (simp add: compress_Racecar hex32_def upt_rec)
qed

section \<open>The store and the record id\<close>

lemma id_r_analyzeString: "id_r (analyzeString now v) = sha256 v"
  by (simp add: analyzeString_def Let_def)

lemma value_r_analyzeString: "value_r (analyzeString now v) = v"
  by (simp add: analyzeString_def Let_def)

lemma set_entry_absent: "\<not> has m k \<Longrightarrow> set_entry m k v = m @ [(k, v)]"
  by (induction m) (auto simp: has_def)

lemma get_set_entry: "get (set_entry m k v) k = Some v"
  by (induction m) (auto simp: get_def)

lemma one_record_per_id_add:
  "one_record_per_id m \<Longrightarrow> \<not> has m (id_r r) \<Longrightarrow> one_record_per_id (m @ [(id_r r, r)])"
  by (auto simp: one_record_per_id_def has_def)

lemma one_record_per_id_filter:
  "one_record_per_id m \<Longrightarrow> one_record_per_id (filter P m)"
  by (auto simp: one_record_per_id_def distinct_map_filter list_all_iff)

lemma one_record_per_id_values:
  "one_record_per_id m \<Longrightarrow> distinct (map id_r (values_of m))"
proof -
  assume a: "one_record_per_id m"
  then have "map id_r (values_of m) = map fst m"
    by (induction m) (auto simp: one_record_per_id_def values_of_def)
  with a show ?thesis by (simp add: one_record_per_id_def)
qed

lemma post_strings_keeps_invariant:
  "one_record_per_id strings \<Longrightarrow> one_record_per_id (snd (post_strings now strings val))"
  by (cases val) (auto simp: post_strings_def Let_def set_entry_absent one_record_per_id_add)

lemma delete_string_keeps_invariant:
  "one_record_per_id strings \<Longrightarrow> one_record_per_id (snd (delete_string now strings v))"
  by (auto simp: delete_string_def delete_def Let_def one_record_per_id_filter split: bool.splits)

text \<open>
  C2. For every store and every submitted string whose trimmed value is not empty:
  when the id of the analyzed value is already a key of the store, \<open>POST /strings\<close>
  answers 409 (Conflict) and the store is unchanged; when it is not, the answer is 201
  with the new record, which is added at the end of the store. Whatever the request
  (\<open>POST\<close> of any body value, \<open>DELETE\<close> of any value), a store with at most one record
  per id stays so; the initial store \<open>new Map()\<close> is such a store.
\<close>

theorem post_strings_conflict_or_insert:
  "(trim v \<noteq> [] \<and> has strings (id_r (analyzeString now (trim v))) \<longrightarrow>
      post_strings now strings (JString v)
        = (Error 409 ''String already exists in the system.'', strings))
   \<and> (trim v \<noteq> [] \<and> \<not> has strings (id_r (analyzeString now (trim v))) \<longrightarrow>
      post_strings now strings (JString v)
        = (Created (analyzeString now (trim v)),
           strings @ [(id_r (analyzeString now (trim v)), analyzeString now (trim v))]))
   \<and> (one_record_per_id strings \<longrightarrow>
        one_record_per_id (snd (post_strings now strings val))
        \<and> one_record_per_id (snd (delete_string now strings w))
        \<and> distinct (map id_r (values_of (snd (post_strings now strings val)))))
   \<and> one_record_per_id []"
  using post_strings_keeps_invariant[of strings now val]
    delete_string_keeps_invariant[of strings now w]
    one_record_per_id_values[of "snd (post_strings now strings val)"]
  by (auto simp: post_strings_def Let_def set_entry_absent one_record_per_id_def)

text \<open>
  Submitting \<open>" racecar "\<close> to the empty store creates the record of \<open>"racecar"\<close>;
  submitting \<open>"racecar"\<close> again is a Conflict that leaves the store as it was.
\<close>

theorem post_strings_conflict_or_insert_witness:
  "post_strings example_time [] (JString '' racecar '')
     = (Created (analyzeString example_time ''racecar''),
        [(sha256 ''racecar'', analyzeString example_time ''racecar'')])
   \<and> post_strings example_time [(sha256 ''racecar'', analyzeString example_time ''racecar'')]
        (JString ''racecar'')
     = (Error 409 ''String already exists in the system.'',
        [(sha256 ''racecar'', analyzeString example_time ''racecar'')])
   \<and> one_record_per_id (snd (post_strings example_time
        [(sha256 ''racecar'', analyzeString example_time ''racecar'')] (JString ''racecar'')))"
proof -
  let ?r = "analyzeString example_time ''racecar''"
  have t1: "trim '' racecar '' = ''racecar''" and t2: "trim ''racecar'' = ''racecar''"
    by (simp_all add: trim_def is_space_def code_def)
  have h1: "\<not> has [] (id_r ?r)" and h2: "has [(sha256 ''racecar'', ?r)] (id_r ?r)"
    by (simp_all add: has_def id_r_analyzeString)
  have inv: "one_record_per_id [(sha256 ''racecar'', ?r)]"
    by (simp add: one_record_per_id_def id_r_analyzeString)
  show ?thesis
    using post_strings_conflict_or_insert[of "'' racecar ''" "[]" example_time JUndefined "[]"]
      post_strings_conflict_or_insert[of "''racecar''" "[(sha256 ''racecar'', ?r)]" example_time
        "JString ''racecar''" "[]"]
      t1 t2 h1 h2 inv
    by (simp add: id_r_analyzeString)
qed

lemma filed_by_digest_post:
  "filed_by_digest strings \<Longrightarrow> filed_by_digest (snd (post_strings now strings val))"
  by (cases val)
    (auto simp: post_strings_def Let_def set_entry_absent filed_by_digest_def has_def
      id_r_analyzeString value_r_analyzeString)

lemma filed_by_digest_delete:
  "filed_by_digest strings \<Longrightarrow> filed_by_digest (snd (delete_string now strings v))"
  by (auto simp: delete_string_def delete_def Let_def filed_by_digest_def distinct_map_filter
      list_all_iff split: bool.splits)

lemma filed_entry_iff:
  assumes "filed_by_digest strings"
  shows "get strings k = Some r \<longleftrightarrow> r \<in> set (values_of strings) \<and> sha256 (value_r r) = k"
proof -
  from assms have d: "distinct (map fst strings)"
    and f: "\<forall>e\<in>set strings. fst e = sha256 (value_r (snd e))"
    by (simp_all add: filed_by_digest_def list_all_iff)
  have "get strings k = Some r \<longleftrightarrow> (k, r) \<in> set strings"
    using d by (simp add: get_def)
  also have "\<dots> \<longleftrightarrow> r \<in> set (values_of strings) \<and> sha256 (value_r r) = k"
    using f by (force simp: values_of_def)
  finally show ?thesis .
qed

lemma get_string_by_digest:
  "get_string now strings v =
     (case get strings (sha256 v) of Some r \<Rightarrow> Found r | None \<Rightarrow> Error 404 ''String not found'')"
  by (simp add: get_string_def Let_def id_r_analyzeString)

lemma filter_absent_key: "\<not> has strings k \<Longrightarrow> filter (\<lambda>e. fst e \<noteq> k) strings = strings"
  by (induction strings) (auto simp: has_def)

lemma delete_string_by_digest:
  "delete_string now strings v =
     (if has strings (sha256 v)
      then (NoContent, filter (\<lambda>e. fst e \<noteq> sha256 v) strings)
      else (Error 404 ''String not found'', strings))"
  by (simp add: delete_string_def delete_def Let_def id_r_analyzeString filter_absent_key)

lemma has_iff_get: "has strings k \<longleftrightarrow> (\<exists>r. get strings k = Some r)"
  by (induction strings) (auto simp: has_def get_def)

lemma post_strings_created:
  assumes "post_strings now strings (JString v) = (Created r, strings')"
  shows "r = analyzeString now (trim v) \<and> id_r r = sha256 (trim v)
         \<and> strings' = strings @ [(sha256 (trim v), r)]"
  using assms
  by (auto simp: post_strings_def Let_def set_entry_absent id_r_analyzeString split: if_splits)

text \<open>
  C1 (as amended). The id of a record is the SHA-256 digest of the value exactly as it
  is given, with no case folding. \<open>POST /strings\<close> of \<open>v\<close> creates the record of the
  trimmed value, whose id is the digest of the trimmed value, and files it under that
  id. \<open>GET /strings/v\<close> looks up the digest of \<open>v\<close> as it is, neither trimmed nor
  case-folded, and returns the record filed there or answers 404; \<open>DELETE /strings/v\<close>
  removes the record filed under the digest of \<open>v\<close> or answers 404. The store starts
  empty and \<open>POST\<close> and \<open>DELETE\<close> keep every record filed under the digest of its own
  value; in such a store \<open>GET\<close> of \<open>v\<close> returns a record exactly when that record is
  stored and the digest of its value is the digest of \<open>v\<close>, \<open>DELETE\<close> of \<open>v\<close> succeeds
  exactly when such a record is stored, and \<open>GET\<close> of the value of a stored record
  returns that record.
\<close>

theorem fetch_and_remove_use_digest_of_given_value:
  "(post_strings now strings (JString v) = (Created r1, strings') \<longrightarrow>
      r1 = analyzeString now (trim v) \<and> id_r r1 = sha256 (trim v)
      \<and> strings' = strings @ [(sha256 (trim v), r1)])
   \<and> get_string now strings v =
       (case get strings (sha256 v) of Some r \<Rightarrow> Found r | None \<Rightarrow> Error 404 ''String not found'')
   \<and> delete_string now strings v =
       (if has strings (sha256 v)
        then (NoContent, filter (\<lambda>e. fst e \<noteq> sha256 v) strings)
        else (Error 404 ''String not found'', strings))
   \<and> filed_by_digest []
   \<and> (filed_by_digest strings \<longrightarrow>
        filed_by_digest (snd (post_strings now strings val))
        \<and> filed_by_digest (snd (delete_string now strings v))
        \<and> (get_string now strings v = Found r
             \<longleftrightarrow> r \<in> set (values_of strings) \<and> sha256 (value_r r) = sha256 v)
        \<and> (fst (delete_string now strings v) = NoContent
             \<longleftrightarrow> (\<exists>r'\<in>set (values_of strings). sha256 (value_r r') = sha256 v))
        \<and> (\<forall>r'\<in>set (values_of strings). get_string now strings (value_r r') = Found r'))"
proof (intro conjI impI)
  assume "post_strings now strings (JString v) = (Created r1, strings')"
  from post_strings_created[OF this]
  show "r1 = analyzeString now (trim v)" and "id_r r1 = sha256 (trim v)"
    and "strings' = strings @ [(sha256 (trim v), r1)]" by (simp_all add: id_r_analyzeString)
next
  show "get_string now strings v =
       (case get strings (sha256 v) of Some r \<Rightarrow> Found r | None \<Rightarrow> Error 404 ''String not found'')"
    by (rule get_string_by_digest)
  show "delete_string now strings v =
       (if has strings (sha256 v)
        then (NoContent, filter (\<lambda>e. fst e \<noteq> sha256 v) strings)
        else (Error 404 ''String not found'', strings))"
    by (rule delete_string_by_digest)
  show "filed_by_digest []" by (simp add: filed_by_digest_def)
next
  assume f: "filed_by_digest strings"
  show "filed_by_digest (snd (post_strings now strings val))"
    by (rule filed_by_digest_post[OF f])
  show "filed_by_digest (snd (delete_string now strings v))"
    by (rule filed_by_digest_delete[OF f])
  show "get_string now strings v = Found r
      \<longleftrightarrow> r \<in> set (values_of strings) \<and> sha256 (value_r r) = sha256 v"
    using filed_entry_iff[OF f, of "sha256 v" r]
    by (auto simp: get_string_by_digest split: option.splits)
  show "fst (delete_string now strings v) = NoContent
      \<longleftrightarrow> (\<exists>r'\<in>set (values_of strings). sha256 (value_r r') = sha256 v)"
    using filed_entry_iff[OF f, of "sha256 v"]
    by (auto simp: delete_string_by_digest has_iff_get)
  show "\<forall>r'\<in>set (values_of strings). get_string now strings (value_r r') = Found r'"
  proof
    fix r' assume "r' \<in> set (values_of strings)"
    then have "get strings (sha256 (value_r r')) = Some r'"
      using filed_entry_iff[OF f, of "sha256 (value_r r')" r'] by simp
    then show "get_string now strings (value_r r') = Found r'"
      by (simp add: get_string_by_digest)
  qed
qed

text \<open>
  \<open>" Racecar "\<close> is stored as \<open>"Racecar"\<close> under the digest of \<open>"Racecar"\<close>; \<open>GET\<close> of
  \<open>"Racecar"\<close> returns the record and \<open>DELETE\<close> of \<open>"Racecar"\<close> removes it.
\<close>

theorem fetch_and_remove_use_digest_of_given_value_witness:
  "post_strings example_time [] (JString '' Racecar '')
     = (Created (analyzeString example_time ''Racecar''),
        [(sha256 ''Racecar'', analyzeString example_time ''Racecar'')])
   \<and> filed_by_digest [(sha256 ''Racecar'', analyzeString example_time ''Racecar'')]
   \<and> get_string example_time [(sha256 ''Racecar'', analyzeString example_time ''Racecar'')]
        ''Racecar''
     = Found (analyzeString example_time ''Racecar'')
   \<and> delete_string example_time [(sha256 ''Racecar'', analyzeString example_time ''Racecar'')]
        ''Racecar''
     = (NoContent, [])"
proof -
  let ?r = "analyzeString example_time ''Racecar''"
  let ?s = "[(sha256 ''Racecar'', ?r)]"
  have t: "trim '' Racecar '' = ''Racecar''"
    by (simp add: trim_def is_space_def code_def)
  have p: "post_strings example_time [] (JString '' Racecar '') = (Created ?r, ?s)"
    by (simp add: post_strings_def Let_def t has_def id_r_analyzeString)
  have f: "filed_by_digest ?s"
    using fetch_and_remove_use_digest_of_given_value[of example_time "[]" "'' Racecar ''" ?r ?s
        "JString '' Racecar ''" ?r] p
    by (simp add: t)
  have m: "?r \<in> set (values_of ?s)" by (simp add: values_of_def)
  have g: "get_string example_time ?s ''Racecar'' = Found ?r"
    using fetch_and_remove_use_digest_of_given_value[of example_time ?s "''Racecar''" ?r ?s
        JUndefined ?r] f m
    by (simp add: value_r_analyzeString get_def)
  have d: "delete_string example_time ?s ''Racecar'' = (NoContent, [])"
    using fetch_and_remove_use_digest_of_given_value[of example_time ?s "''Racecar''" ?r ?s
        JUndefined ?r]
    by (simp add: has_def)
  from p f g d show ?thesis by simp
qed

text \<open>
  C1 as stated fails: \<open>"Racecar"\<close> and \<open>"racecar"\<close> differ only in letter case, their
  ids differ, and after \<open>"racecar"\<close> has been stored \<open>GET /strings/Racecar\<close> and
  \<open>DELETE /strings/Racecar\<close> are Not Found.
\<close>

theorem case_variant_has_other_id:
  "toLowerCase (trim ''Racecar'') = toLowerCase (trim ''racecar'')
   \<and> id_r (analyzeString example_time ''Racecar'') \<noteq> id_r (analyzeString example_time ''racecar'')
   \<and> get_string example_time (snd (post_strings example_time [] (JString ''racecar''))) ''Racecar''
        = Error 404 ''String not found''
   \<and> delete_string example_time (snd (post_strings example_time [] (JString ''racecar'')))
        ''Racecar''
        = (Error 404 ''String not found'', snd (post_strings example_time [] (JString ''racecar'')))"
proof -
  have t: "trim ''Racecar'' = ''Racecar''" "trim ''racecar'' = ''racecar''"
    by (simp_all add: trim_def is_space_def code_def)
  have l: "toLowerCase ''Racecar'' = toLowerCase ''racecar''"
    by (simp add: toLowerCase_def lower_char_def code_def char_of_eval)
  have d: "sha256 ''Racecar'' \<noteq> sha256 ''racecar''"
    by (simp add: sha256_Racecar sha256_racecar)
  have p: "snd (post_strings example_time [] (JString ''racecar''))
      = [(sha256 ''racecar'', analyzeString example_time ''racecar'')]"
    by (simp add: t post_strings_def Let_def has_def id_r_analyzeString)
  show ?thesis
    unfolding p using d
    by (simp add: t l id_r_analyzeString get_string_by_digest delete_string_by_digest has_def get_def)
qed

section \<open>The filters\<close>

lemma includes_ci: "includes_str (toLowerCase v) (toLowerCase c) = contains_ci v c"
  by (simp add: contains_ci_def includes_str_sublist)

lemma includes_lowered: "toLowerCase t = t \<Longrightarrow> includes_str (toLowerCase v) t = contains_ci v t"
  by (simp add: contains_ci_def includes_str_sublist)

text \<open>The comparisons of the code are the bounds of the specification.\<close>

lemma js_ge_at_least: "js_ge (Num (int len)) n = at_least n len"
  by (cases n) (auto simp: js_ge_def at_least_def)

lemma js_le_at_most: "js_le (Num (int len)) n = at_most n len"
  by (cases n) (auto simp: js_le_def at_most_def)

lemma js_eq_exactly: "js_eq (Num (int len)) n = exactly n len"
  by (auto simp: js_eq_def exactly_def)

lemma execute_filtering_meets:
  assumes "case value_contains_f f of None \<Rightarrow> True | Some t \<Rightarrow> toLowerCase t = t"
  shows "execute_filtering f rs = filter (meets f) rs"
  using assms
  by (auto simp: execute_filtering_def meets_def Let_def includes_ci includes_lowered
      js_ge_at_least js_le_at_most js_eq_exactly
      split: option.splits intro!: filter_cong)

lemma meets_upd:
  "is_palindrome_f f = None \<Longrightarrow> meets (f\<lparr>is_palindrome_f := Some b\<rparr>) s = (meets f s \<and> is_palindrome (properties_r s) = b)"
  "min_length_f f = None \<Longrightarrow> meets (f\<lparr>min_length_f := Some n\<rparr>) s = (meets f s \<and> at_least n (length_p (properties_r s)))"
  "max_length_f f = None \<Longrightarrow> meets (f\<lparr>max_length_f := Some n\<rparr>) s = (meets f s \<and> at_most n (length_p (properties_r s)))"
  "word_count_f f = None \<Longrightarrow> meets (f\<lparr>word_count_f := Some n\<rparr>) s = (meets f s \<and> exactly n (word_count (properties_r s)))"
  "contains_character_f f = None \<Longrightarrow> meets (f\<lparr>contains_character_f := Some c\<rparr>) s = (meets f s \<and> contains_ci (value_r s) c)"
  by (auto simp: meets_def)

lemma requested_sel:
  "is_palindrome_f (requested q) =
     (case is_palindrome_q q of Some (QString p) \<Rightarrow> Some (toLowerCase p = ''true'') | _ \<Rightarrow> None)"
  "word_count_f (requested q) = map_option (\<lambda>p. parseInt10 (to_string p)) (word_count_q q)"
  "min_length_f (requested q) = map_option (\<lambda>p. parseInt10 (to_string p)) (min_length_q q)"
  "max_length_f (requested q) = map_option (\<lambda>p. parseInt10 (to_string p)) (max_length_q q)"
  "contains_character_f (requested q) =
     (case contains_character_q q of Some (QString c) \<Rightarrow> Some c | _ \<Rightarrow> None)"
  "value_contains_f (requested q) = None"
  by (simp_all add: requested_def)

lemma sound_start: "sound strings q 0 (values_of strings, no_filters)"
  by (simp add: sound_def no_filters_def meets_def)

lemma sound_1: "sound strings q 0 a \<Longrightarrow> block_is_palindrome q a = Inr a' \<Longrightarrow> sound strings q 1 a'"
  by (auto simp: sound_def block_is_palindrome_def Let_def meets_upd requested_sel
      split: option.splits qvalue.splits if_splits intro!: filter_cong)

lemma sound_2: "sound strings q 1 a \<Longrightarrow> block_min_length q a = Inr a' \<Longrightarrow> sound strings q 2 a'"
  by (auto simp: sound_def block_min_length_def Let_def meets_upd requested_sel js_ge_at_least
      split: option.splits if_splits intro!: filter_cong)

lemma sound_3: "sound strings q 2 a \<Longrightarrow> block_max_length q a = Inr a' \<Longrightarrow> sound strings q 3 a'"
  by (auto simp: sound_def block_max_length_def Let_def meets_upd requested_sel js_le_at_most
      split: option.splits if_splits intro!: filter_cong)

lemma sound_4: "sound strings q 3 a \<Longrightarrow> block_word_count q a = Inr a' \<Longrightarrow> sound strings q 4 a'"
  by (auto simp: sound_def block_word_count_def Let_def meets_upd requested_sel js_eq_exactly
      split: option.splits if_splits intro!: filter_cong)

lemma sound_5: "sound strings q 4 a \<Longrightarrow> block_contains_character q a = Inr a' \<Longrightarrow> sound strings q 5 a'"
  by (auto simp: sound_def block_contains_character_def Let_def meets_upd requested_sel includes_ci
      split: option.splits qvalue.splits if_splits intro!: filter_cong)

lemma filters_eqI:
  fixes f g :: filters
  assumes "is_palindrome_f f = is_palindrome_f g" "word_count_f f = word_count_f g"
    "min_length_f f = min_length_f g" "max_length_f f = max_length_f g"
    "contains_character_f f = contains_character_f g" "value_contains_f f = value_contains_f g"
  shows "f = g"
  using assms by (cases f, cases g) simp

lemma sound_end: "sound strings q 5 a \<Longrightarrow> snd a = requested q \<and> fst a = filter (meets (requested q)) (values_of strings)"
proof -
  assume s: "sound strings q 5 a"
  have "snd a = requested q"
    by (rule filters_eqI) (use s in \<open>simp_all add: sound_def requested_sel\<close>)
  with s show ?thesis by (simp add: sound_def)
qed

lemma and_then_Inr: "and_then r f = Inr a' \<Longrightarrow> \<exists>a. r = Inr a \<and> f a = Inr a'"
  by (cases r) (auto simp: and_then_def)

lemma and_then_Inl: "and_then r f = Inl e \<Longrightarrow> r = Inl e \<or> (\<exists>a. r = Inr a \<and> f a = Inl e)"
  by (cases r) (auto simp: and_then_def)

lemma and_then_simps:
  "and_then (Inl e) f = Inl e" "and_then (Inr a) f = f a"
  by (simp_all add: and_then_def)

lemma block_Inl:
  "block_is_palindrome q a = Inl e \<Longrightarrow> \<exists>m. e = Error 400 m \<or> e = Threw m"
  "block_min_length q a = Inl e \<Longrightarrow> \<exists>m. e = Error 400 m \<or> e = Threw m"
  "block_max_length q a = Inl e \<Longrightarrow> \<exists>m. e = Error 400 m \<or> e = Threw m"
  "block_word_count q a = Inl e \<Longrightarrow> \<exists>m. e = Error 400 m \<or> e = Threw m"
  "block_contains_character q a = Inl e \<Longrightarrow> \<exists>m. e = Error 400 m \<or> e = Threw m"
  by (auto simp: block_is_palindrome_def block_min_length_def block_max_length_def
      block_word_count_def block_contains_character_def Let_def
      split: option.splits qvalue.splits if_splits)

lemma blocks_Inl:
  assumes "and_then (and_then (and_then (and_then
              (block_is_palindrome q a)
              (block_min_length q)) (block_max_length q)) (block_word_count q))
              (block_contains_character q) = Inl e"
  shows "\<exists>m. e = Error 400 m \<or> e = Threw m"
  using assms by (auto dest!: and_then_Inl dest: block_Inl)

lemma get_strings_meets:
  assumes "get_strings strings q = Listed results n applied"
  shows "applied = requested q \<and> results = filter (meets (requested q)) (values_of strings)
         \<and> n = length results"
proof -
  from assms obtain a5 where r5: "and_then (and_then (and_then (and_then
              (block_is_palindrome q (values_of strings, no_filters))
              (block_min_length q)) (block_max_length q)) (block_word_count q))
              (block_contains_character q) = Inr a5" and a5: "a5 = (results, applied)" and n: "n = length results"
    by (auto simp: get_strings_def split: sum.splits prod.splits dest: blocks_Inl)
  from and_then_Inr[OF r5] obtain a4 where r4: "and_then (and_then (and_then
              (block_is_palindrome q (values_of strings, no_filters))
              (block_min_length q)) (block_max_length q)) (block_word_count q) = Inr a4"
      and b5: "block_contains_character q a4 = Inr a5" by blast
  from and_then_Inr[OF r4] obtain a3 where r3: "and_then (and_then
              (block_is_palindrome q (values_of strings, no_filters))
              (block_min_length q)) (block_max_length q) = Inr a3"
      and b4: "block_word_count q a3 = Inr a4" by blast
  from and_then_Inr[OF r3] obtain a2 where r2: "and_then
              (block_is_palindrome q (values_of strings, no_filters))
              (block_min_length q) = Inr a2"
      and b3: "block_max_length q a2 = Inr a3" by blast
  from and_then_Inr[OF r2] obtain a1 where b1: "block_is_palindrome q (values_of strings, no_filters) = Inr a1"
      and b2: "block_min_length q a1 = Inr a2" by blast
  have "sound strings q 5 a5"
    using sound_5[OF sound_4[OF sound_3[OF sound_2[OF sound_1[OF sound_start b1] b2] b3] b4] b5] .
  from sound_end[OF this] a5 n show ?thesis by simp
qed

text \<open>
  On decimal digits \<open>parseInt\<close> gives the number nearest to their value, which is not
  negative.
\<close>

lemma digit_not_space: "is_digit c \<Longrightarrow> \<not> is_space c"
  by (auto simp: is_digit_def is_space_def)

lemma parseInt10_digits:
  assumes "ds \<noteq> []" "\<forall>c\<in>set ds. is_digit c"
  shows "parseInt10 ds = number_of_int (digits_value ds)"
proof -
  from assms obtain c cs where c: "ds = c # cs" by (cases ds) auto
  with assms have dc: "is_digit c" by simp
  then have nsp: "\<not> is_space c" by (rule digit_not_space)
  from dc have nm: "c \<noteq> CHR ''-''" and np: "c \<noteq> CHR ''+''"
    by (auto simp: is_digit_def code_def)
  from assms have tw: "takeWhile is_digit ds = ds" by simp
  show ?thesis
    using nsp nm np tw c by (simp add: parseInt10_def Let_def)
qed

lemma digits_value_nonneg:
  assumes "\<forall>c\<in>set ds. is_digit c"
  shows "0 \<le> digits_value ds"
proof -
  have "\<And>n. 0 \<le> n \<Longrightarrow> \<forall>c\<in>set ds. is_digit c \<Longrightarrow> 0 \<le> foldl (\<lambda>n c. 10 * n + digit_val c) n ds"
  proof (induction ds)
    case Nil
    then show ?case by simp
  next
    case (Cons c ds)
    from Cons.prems have "0 \<le> 10 * n + digit_val c"
      by (simp add: digit_val_def is_digit_def)
    with Cons show ?case by simp
  qed
  with assms show ?thesis by (simp add: digits_value_def)
qed

lemma number_of_int_nonneg:
  "0 \<le> n \<Longrightarrow> number_of_int n \<noteq> NaN \<and> \<not> js_less (number_of_int n) (Num 0)"
  by (simp add: number_of_int_def Let_def)

lemma round53_exact: "a < 2 ^ 53 \<Longrightarrow> round53 a = a"
  by (simp add: round53_def)

lemma number_of_int_exact: "\<bar>n\<bar> < 2 ^ 53 \<Longrightarrow> number_of_int n = Num n"
proof -
  assume a: "\<bar>n\<bar> < 2 ^ 53"
  then have "nat \<bar>n\<bar> < 2 ^ 53" by (simp add: nat_less_iff)
  then have r: "round53 (nat \<bar>n\<bar>) = nat \<bar>n\<bar>" by (rule round53_exact)
  have "(2::nat) ^ 53 \<le> 2 ^ 1024" by (rule power_increasing) simp_all
  with \<open>nat \<bar>n\<bar> < 2 ^ 53\<close> have "\<not> (2::nat) ^ 1024 \<le> nat \<bar>n\<bar>" by linarith
  then show ?thesis
    by (simp add: number_of_int_def r Let_def)
qed

section \<open>The natural-language filters\<close>

lemma trim_Nil: "trim [] = []"
  by (simp add: trim_def)

lemma handler_nonblank:
  "trim q \<noteq> [] \<Longrightarrow>
   filter_by_natural_language strings (JString q) =
     Interpreted (execute_filtering (parse_filters (toLowerCase q)) (values_of strings))
       (length (execute_filtering (parse_filters (toLowerCase q)) (values_of strings)))
       q (parse_filters (toLowerCase q))"
  by (auto simp: filter_by_natural_language_def Let_def trim_toLowerCase_empty trim_Nil)

lemma no_filters_iff:
  "f = no_filters \<longleftrightarrow> is_palindrome_f f = None \<and> word_count_f f = None \<and> min_length_f f = None
     \<and> max_length_f f = None \<and> contains_character_f f = None \<and> value_contains_f f = None"
  by (cases f) (simp add: no_filters_def)

lemma palindrome_filter_sel:
  "is_palindrome_f (palindrome_filter lq f) =
     (if includes_str lq ''non-palindrome'' \<or> includes_str lq ''not palindrome'' then Some False
      else if includes_str lq ''palindrome'' then Some True else is_palindrome_f f)"
  "word_count_f (palindrome_filter lq f) = word_count_f f"
  "min_length_f (palindrome_filter lq f) = min_length_f f"
  "max_length_f (palindrome_filter lq f) = max_length_f f"
  "contains_character_f (palindrome_filter lq f) = contains_character_f f"
  "value_contains_f (palindrome_filter lq f) = value_contains_f f"
  by (simp_all add: palindrome_filter_def Let_def)

lemma word_count_filter_sel:
  "is_palindrome_f (word_count_filter lq f) = is_palindrome_f f"
  "word_count_f (word_count_filter lq f) = (if includes_str lq ''single word'' then Some (Num 1) else word_count_f f)"
  "min_length_f (word_count_filter lq f) = min_length_f f"
  "max_length_f (word_count_filter lq f) = max_length_f f"
  "contains_character_f (word_count_filter lq f) = contains_character_f f"
  "value_contains_f (word_count_filter lq f) = value_contains_f f"
  by (simp_all add: word_count_filter_def)

lemma length_filters_sel:
  "is_palindrome_f (length_filters lq f) = is_palindrome_f f"
  "word_count_f (length_filters lq f) = word_count_f f"
  "min_length_f (length_filters lq f) =
     (case search (than_at ''longer than'') lq of None \<Rightarrow> min_length_f f
      | Some ds \<Rightarrow> Some (js_add (parseInt10 ds) 1))"
  "max_length_f (length_filters lq f) =
     (case search (than_at ''shorter than'') lq of None \<Rightarrow> max_length_f f
      | Some ds \<Rightarrow> Some (js_add (parseInt10 ds) (- 1)))"
  "contains_character_f (length_filters lq f) = contains_character_f f"
  "value_contains_f (length_filters lq f) = value_contains_f f"
  by (simp_all add: length_filters_def Let_def split: option.splits)

lemma character_filter_sel:
  "is_palindrome_f (character_filter lq f) = is_palindrome_f f"
  "word_count_f (character_filter lq f) = word_count_f f"
  "min_length_f (character_filter lq f) = min_length_f f"
  "max_length_f (character_filter lq f) = max_length_f f"
  "contains_character_f (character_filter lq f) =
     (if includes_str lq ''first vowel'' then Some ''a''
      else case search contain_at lq of None \<Rightarrow> contains_character_f f | Some c \<Rightarrow> Some c)"
  "value_contains_f (character_filter lq f) = value_contains_f f"
  by (simp_all add: character_filter_def split: option.splits)

lemma default_filter_sel:
  "is_palindrome_f (default_filter lq f) = is_palindrome_f f"
  "word_count_f (default_filter lq f) = word_count_f f"
  "min_length_f (default_filter lq f) = min_length_f f"
  "max_length_f (default_filter lq f) = max_length_f f"
  "contains_character_f (default_filter lq f) = contains_character_f f"
  "value_contains_f (default_filter lq f) = (if f = no_filters then Some lq else value_contains_f f)"
  by (simp_all add: default_filter_def)

lemmas filter_sel = palindrome_filter_sel word_count_filter_sel length_filters_sel
  character_filter_sel default_filter_sel

lemma no_filters_sel:
  "is_palindrome_f no_filters = None" "word_count_f no_filters = None"
  "min_length_f no_filters = None" "max_length_f no_filters = None"
  "contains_character_f no_filters = None" "value_contains_f no_filters = None"
  by (simp_all add: no_filters_def)

lemma parse_filters_is_palindrome:
  "is_palindrome_f (parse_filters lq) =
     (if includes_str lq ''non-palindrome'' \<or> includes_str lq ''not palindrome'' then Some False
      else if includes_str lq ''palindrome'' then Some True else None)"
  by (simp add: parse_filters_def filter_sel no_filters_sel)

lemma parse_filters_word_count:
  "word_count_f (parse_filters lq) = (if includes_str lq ''single word'' then Some (Num 1) else None)"
  by (simp add: parse_filters_def filter_sel no_filters_sel)

lemma parse_filters_min_length:
  "min_length_f (parse_filters lq) =
     (case search (than_at ''longer than'') lq of None \<Rightarrow> None
      | Some ds \<Rightarrow> Some (js_add (parseInt10 ds) 1))"
  by (simp add: parse_filters_def filter_sel no_filters_sel split: option.splits)

lemma parse_filters_max_length:
  "max_length_f (parse_filters lq) =
     (case search (than_at ''shorter than'') lq of None \<Rightarrow> None
      | Some ds \<Rightarrow> Some (js_add (parseInt10 ds) (- 1)))"
  by (simp add: parse_filters_def filter_sel no_filters_sel split: option.splits)

lemma parse_filters_contains_character:
  "contains_character_f (parse_filters lq) =
     (if includes_str lq ''first vowel'' then Some ''a'' else search contain_at lq)"
  by (simp add: parse_filters_def filter_sel no_filters_sel split: option.splits)

lemma parse_filters_value_contains:
  "value_contains_f (parse_filters lq) =
     (if is_palindrome_f (parse_filters lq) = None \<and> word_count_f (parse_filters lq) = None
         \<and> min_length_f (parse_filters lq) = None \<and> max_length_f (parse_filters lq) = None
         \<and> contains_character_f (parse_filters lq) = None
      then Some lq else None)"
  unfolding parse_filters_def
  by (simp only: filter_sel no_filters_iff no_filters_sel) simp


lemma parse_filters_lowered:
  "case value_contains_f (parse_filters (toLowerCase q)) of None \<Rightarrow> True
   | Some t \<Rightarrow> toLowerCase t = t"
  by (simp add: parse_filters_value_contains toLowerCase_idem)

lemma meets_no_filters: "meets no_filters s"
  by (simp add: meets_def no_filters_def)

lemma natural_language_meets:
  assumes "filter_by_natural_language strings query = Interpreted results n original parsed"
  shows "results = filter (meets parsed) (values_of strings) \<and> n = length results"
proof -
  from assms obtain q where q: "query = JString q" and ne: "q \<noteq> []"
    by (cases query) (auto simp: filter_by_natural_language_def split: if_splits)
  show ?thesis
  proof (cases "trim q = []")
    case True
    with assms q ne show ?thesis
      by (auto simp: filter_by_natural_language_def trim_toLowerCase_empty meets_no_filters values_of_def)
  next
    case False
    from assms show ?thesis
      unfolding q handler_nonblank[OF False]
      using execute_filtering_meets[OF parse_filters_lowered[of q], of "values_of strings"]
      by auto
  qed
qed

lemma length_p_analyzeString: "length_p (properties_r (analyzeString now v)) = length v"
  by (simp add: analyzeString_def Let_def)

lemma is_palindrome_analyzeString:
  "is_palindrome (properties_r (analyzeString now v)) = (toLowerCase v = rev (toLowerCase v))"
  by (simp add: analyzeString_def Let_def)

lemmas string_eval = toLowerCase_def lower_char_def code_def char_of_eval trim_def is_space_def
  startsWith_def is_digit_def is_word_char_def

lemmas number_eval = parseInt10_def digits_value_def digit_val_def number_of_int_def round53_def

lemmas parse_eval = parse_filters_def palindrome_filter_def word_count_filter_def
  length_filters_def character_filter_def default_filter_def no_filters_def
  than_at_def contain_at_def the_letter_at_def number_eval

lemmas analyze_sel = id_r_analyzeString value_r_analyzeString length_p_analyzeString
  is_palindrome_analyzeString

lemmas block_defs = block_is_palindrome_def block_min_length_def block_max_length_def
  block_word_count_def block_contains_character_def

lemma parseInt10_5: "parseInt10 ''5'' = Num 5"
  by (simp add: number_eval string_eval)

lemma get_strings_length_5:
  "get_strings strings \<lparr> is_palindrome_q = None, min_length_q = Some (QString ''5''),
       max_length_q = Some (QString ''5''), word_count_q = None, contains_character_q = None \<rparr>
   = Listed (filter (\<lambda>s. length_p (properties_r s) = 5) (values_of strings))
       (length (filter (\<lambda>s. length_p (properties_r s) = 5) (values_of strings)))
       (no_filters\<lparr>min_length_f := Some (Num 5), max_length_f := Some (Num 5)\<rparr>)"
proof -
  have e: "(js_ge (Num (int k)) (Num 5) \<and> js_le (Num (int k)) (Num 5)) = (k = 5)" for k
    by (auto simp: js_le_def js_ge_def)
  show ?thesis
    by (simp add: get_strings_def and_then_def block_defs parseInt10_5 Let_def e)
qed

text \<open>An acceptable query passes every block.\<close>

lemma natural_literal_passes:
  assumes "natural_literal p"
  shows "p = None \<or> (\<exists>v. p = Some v \<and> parseInt10 (to_string v) \<noteq> NaN
                        \<and> \<not> js_less (parseInt10 (to_string v)) (Num 0))"
proof (cases p)
  case None
  then show ?thesis by simp
next
  case (Some v)
  with assms obtain ds where v: "v = QString ds" and ne: "ds \<noteq> []" and d: "\<forall>c\<in>set ds. is_digit c"
    by (cases v) (auto simp: natural_literal_def list_all_iff)
  from number_of_int_nonneg[OF digits_value_nonneg[OF d]] parseInt10_digits[OF ne d]
  show ?thesis by (simp add: Some v)
qed

lemma block_is_palindrome_passes:
  "acceptable q \<Longrightarrow> \<exists>a'. block_is_palindrome q a = Inr a'"
  by (auto simp: acceptable_def block_is_palindrome_def Let_def split: option.splits qvalue.splits)

lemma block_min_length_passes:
  "acceptable q \<Longrightarrow> \<exists>a'. block_min_length q a = Inr a'"
  using natural_literal_passes[of "min_length_q q"]
  by (auto simp: acceptable_def block_min_length_def Let_def)

lemma block_max_length_passes:
  "acceptable q \<Longrightarrow> \<exists>a'. block_max_length q a = Inr a'"
  using natural_literal_passes[of "max_length_q q"]
  by (auto simp: acceptable_def block_max_length_def Let_def)

lemma block_word_count_passes:
  "acceptable q \<Longrightarrow> \<exists>a'. block_word_count q a = Inr a'"
  using natural_literal_passes[of "word_count_q q"]
  by (auto simp: acceptable_def block_word_count_def Let_def)

lemma block_contains_character_passes:
  "acceptable q \<Longrightarrow> \<exists>a'. block_contains_character q a = Inr a'"
  by (auto simp: acceptable_def block_contains_character_def Let_def split: option.splits qvalue.splits)

lemma get_strings_acceptable:
  assumes "acceptable q"
  shows "get_strings strings q =
           Listed (filter (meets (requested q)) (values_of strings))
             (length (filter (meets (requested q)) (values_of strings))) (requested q)"
proof -
  from block_is_palindrome_passes[OF assms]
  obtain a1 where a1: "block_is_palindrome q (values_of strings, no_filters) = Inr a1" by blast
  from block_min_length_passes[OF assms] obtain a2 where a2: "block_min_length q a1 = Inr a2" by blast
  from block_max_length_passes[OF assms] obtain a3 where a3: "block_max_length q a2 = Inr a3" by blast
  from block_word_count_passes[OF assms] obtain a4 where a4: "block_word_count q a3 = Inr a4" by blast
  from block_contains_character_passes[OF assms]
  obtain a5 where a5: "block_contains_character q a4 = Inr a5" by blast
  have g: "get_strings strings q = Listed (fst a5) (length (fst a5)) (snd a5)"
    by (cases a5) (simp add: get_strings_def a1 a2 a3 a4 a5 and_then_simps)
  from get_strings_meets[OF g] g show ?thesis by simp
qed

text \<open>
  C3. The filter engine of \<open>GET /strings\<close> returns exactly the stored records that
  meet the filter specification requested by the parameters, in the order of the store:
  whenever the handler answers with a list, \<open>filters_applied\<close> is the requested
  specification, \<open>data\<close> is the list of the records that meet it and \<open>count\<close> is its
  length, and the handler does answer so for every acceptable query. A record meets a
  specification when it satisfies the conjunction of the predicates present, with
  inclusive length bounds, an exact word count, and case-insensitive substring tests for
  \<open>contains_character\<close> and \<open>value_contains\<close>. The filter run of the natural-language
  query (block 6) does the same for the filters it reports, and for every filter
  specification and every list of records, \<open>value_contains\<close> being in lower case as
  that handler always makes it. In particular \<open>min_length=5\<close> with \<open>max_length=5\<close>
  returns exactly the records of length 5.
\<close>

theorem filter_engine_conjunction:
  "(get_strings strings q = Listed results n applied \<longrightarrow>
      applied = requested q \<and> results = filter (meets (requested q)) (values_of strings)
      \<and> n = length results)
   \<and> (acceptable q \<longrightarrow>
      get_strings strings q =
        Listed (filter (meets (requested q)) (values_of strings))
          (length (filter (meets (requested q)) (values_of strings))) (requested q))
   \<and> (filter_by_natural_language strings query = Interpreted results' n' original parsed \<longrightarrow>
      results' = filter (meets parsed) (values_of strings) \<and> n' = length results')
   \<and> ((case value_contains_f f of None \<Rightarrow> True | Some t \<Rightarrow> toLowerCase t = t) \<longrightarrow>
      execute_filtering f rs = filter (meets f) rs)
   \<and> get_strings strings \<lparr> is_palindrome_q = None, min_length_q = Some (QString ''5''),
         max_length_q = Some (QString ''5''), word_count_q = None, contains_character_q = None \<rparr>
       = Listed (filter (\<lambda>s. length_p (properties_r s) = 5) (values_of strings))
           (length (filter (\<lambda>s. length_p (properties_r s) = 5) (values_of strings)))
           (no_filters\<lparr>min_length_f := Some (Num 5), max_length_f := Some (Num 5)\<rparr>)"
  using get_strings_meets[of strings q results n applied]
    get_strings_acceptable[of q strings]
    natural_language_meets[of strings query results' n' original parsed]
    execute_filtering_meets[of f rs]
    get_strings_length_5[of strings]
  by blast

theorem filter_engine_conjunction_witness:
  "acceptable \<lparr> is_palindrome_q = Some (QString ''TRUE''), min_length_q = None,
       max_length_q = None, word_count_q = None, contains_character_q = Some (QString ''R'') \<rparr>
   \<and> requested \<lparr> is_palindrome_q = Some (QString ''TRUE''), min_length_q = None,
       max_length_q = None, word_count_q = None, contains_character_q = Some (QString ''R'') \<rparr>
     = no_filters\<lparr>is_palindrome_f := Some True, contains_character_f := Some ''R''\<rparr>
   \<and> get_strings
       [(sha256 ''hello'', analyzeString example_time ''hello''),
        (sha256 ''racecar'', analyzeString example_time ''racecar''),
        (sha256 ''World'', analyzeString example_time ''World'')]
       \<lparr> is_palindrome_q = Some (QString ''TRUE''), min_length_q = None, max_length_q = None,
         word_count_q = None, contains_character_q = Some (QString ''R'') \<rparr>
     = Listed [analyzeString example_time ''racecar''] 1
         (no_filters\<lparr>is_palindrome_f := Some True, contains_character_f := Some ''R''\<rparr>)
   \<and> filter (meets (no_filters\<lparr>is_palindrome_f := Some True, contains_character_f := Some ''R''\<rparr>))
       [analyzeString example_time ''hello'', analyzeString example_time ''racecar'',
        analyzeString example_time ''World'']
     = [analyzeString example_time ''racecar'']
   \<and> filter_by_natural_language
       [(sha256 ''hello'', analyzeString example_time ''hello''),
        (sha256 ''racecar'', analyzeString example_time ''racecar''),
        (sha256 ''World'', analyzeString example_time ''World'')]
       (JString ''WORLD'')
     = Interpreted [analyzeString example_time ''World''] 1 ''WORLD''
         (no_filters\<lparr>value_contains_f := Some ''world''\<rparr>)
   \<and> filter (meets (no_filters\<lparr>value_contains_f := Some ''world''\<rparr>))
       [analyzeString example_time ''hello'', analyzeString example_time ''racecar'',
        analyzeString example_time ''World'']
     = [analyzeString example_time ''World'']
   \<and> execute_filtering (no_filters\<lparr>value_contains_f := Some ''world''\<rparr>)
       [analyzeString example_time ''hello'', analyzeString example_time ''racecar'',
        analyzeString example_time ''World'']
     = [analyzeString example_time ''World'']"
proof -
  let ?store = "[(sha256 ''hello'', analyzeString example_time ''hello''),
      (sha256 ''racecar'', analyzeString example_time ''racecar''),
      (sha256 ''World'', analyzeString example_time ''World'')]"
  let ?q = "\<lparr> is_palindrome_q = Some (QString ''TRUE''), min_length_q = None, max_length_q = None,
       word_count_q = None, contains_character_q = Some (QString ''R'') \<rparr>"
  have a: "acceptable ?q"
    by (simp add: acceptable_def natural_literal_def string_eval)
  have r: "requested ?q
     = no_filters\<lparr>is_palindrome_f := Some True, contains_character_f := Some ''R''\<rparr>"
    by (simp add: requested_def no_filters_def string_eval)
  have g: "get_strings ?store ?q = Listed [analyzeString example_time ''racecar''] 1
       (no_filters\<lparr>is_palindrome_f := Some True, contains_character_f := Some ''R''\<rparr>)"
    by (simp add: get_strings_def and_then_def block_defs values_of_def Let_def
        analyze_sel string_eval no_filters_def)
  have p: "parse_filters ''world'' = no_filters\<lparr>value_contains_f := Some ''world''\<rparr>"
    by (simp add: parse_eval string_eval)
  have t: "trim (toLowerCase ''WORLD'') \<noteq> []"
    by (simp add: string_eval)
  have n: "filter_by_natural_language ?store (JString ''WORLD'')
     = Interpreted [analyzeString example_time ''World''] 1 ''WORLD''
         (no_filters\<lparr>value_contains_f := Some ''world''\<rparr>)"
    using t by (simp add: filter_by_natural_language_def Let_def p execute_filtering_def
        no_filters_def values_of_def analyze_sel string_eval)
  have lw: "case value_contains_f (no_filters\<lparr>value_contains_f := Some ''world''\<rparr>) of
      None \<Rightarrow> True | Some t \<Rightarrow> toLowerCase t = t"
    by (simp add: string_eval)
  show ?thesis
    using filter_engine_conjunction[of ?store ?q "[analyzeString example_time ''racecar'']" 1
        "no_filters\<lparr>is_palindrome_f := Some True, contains_character_f := Some ''R''\<rparr>"
        "JString ''WORLD''" "[analyzeString example_time ''World'']" 1 "''WORLD''"
        "no_filters\<lparr>value_contains_f := Some ''world''\<rparr>"
        "no_filters\<lparr>value_contains_f := Some ''world''\<rparr>"
        "[analyzeString example_time ''hello'', analyzeString example_time ''racecar'',
          analyzeString example_time ''World'']"] a r g n lw
    by (simp add: values_of_def)
qed

section \<open>The regular expressions\<close>

lemma search_None_iff: "search m s = None \<longleftrightarrow> (\<forall>k. m (drop k s) = None)"
proof (induction s)
  case Nil
  then show ?case by simp
next
  case (Cons c cs)
  have "(\<forall>k. m (drop k (c # cs)) = None) \<longleftrightarrow> m (c # cs) = None \<and> (\<forall>k. m (drop k cs) = None)"
  proof
    assume a: "\<forall>k. m (drop k (c # cs)) = None"
    from a[rule_format, of 0] have "m (c # cs) = None" by simp
    moreover have "\<forall>k. m (drop k cs) = None" using a[rule_format, of "Suc k" for k] by simp
    ultimately show "m (c # cs) = None \<and> (\<forall>k. m (drop k cs) = None)" by simp
  next
    assume a: "m (c # cs) = None \<and> (\<forall>k. m (drop k cs) = None)"
    show "\<forall>k. m (drop k (c # cs)) = None"
    proof
      fix k show "m (drop k (c # cs)) = None" using a by (cases k) auto
    qed
  qed
  with Cons show ?case by (simp split: option.splits)
qed

lemma search_leftmost:
  "m t = Some r \<Longrightarrow> (\<forall>k<length pre. m (drop k (pre @ t)) = None) \<Longrightarrow> search m (pre @ t) = Some r"
proof (induction pre)
  case Nil
  then show ?case by (cases t) simp_all
next
  case (Cons c pre)
  from Cons.prems(2)[rule_format, of 0] have h: "m (c # pre @ t) = None" by simp
  have "\<forall>k<length pre. m (drop k (pre @ t)) = None"
  proof (intro allI impI)
    fix k assume "k < length pre"
    with Cons.prems(2)[rule_format, of "Suc k"] show "m (drop k (pre @ t)) = None" by simp
  qed
  with Cons.IH[OF Cons.prems(1)] h show ?case by simp
qed

lemma than_at_iff: "than_at words s = Some ds \<longleftrightarrow> matches_here words s ds"
proof
  assume a: "than_at words s = Some ds"
  let ?r = "drop (length words) s"
  let ?r' = "dropWhile is_space ?r"
  from a have sw: "take (length words) s = words" and ds: "ds = takeWhile is_digit ?r'" and ne: "ds \<noteq> []"
    by (auto simp: than_at_def startsWith_def Let_def split: if_splits)
  have "s = take (length words) s @ ?r" by simp
  also have "?r = takeWhile is_space ?r @ ?r'" by simp
  also have "?r' = ds @ dropWhile is_digit ?r'" by (simp add: ds)
  finally have s: "s = words @ takeWhile is_space ?r @ ds @ dropWhile is_digit ?r'"
    by (simp add: sw)
  have 1: "\<forall>c\<in>set (takeWhile is_space ?r). is_space c" by (auto dest: set_takeWhileD)
  have 2: "\<forall>c\<in>set ds. is_digit c" unfolding ds by (auto dest: set_takeWhileD)
  have 3: "dropWhile is_digit ?r' = [] \<or> \<not> is_digit (hd (dropWhile is_digit ?r'))"
    using hd_dropWhile[of is_digit ?r'] by blast
  show "matches_here words s ds"
    unfolding matches_here_def using s 1 2 3 ne by blast
next
  assume "matches_here words s ds"
  then obtain ws rest where s: "s = words @ ws @ ds @ rest" and ws: "\<forall>c\<in>set ws. is_space c"
    and ne: "ds \<noteq> []" and ds: "\<forall>c\<in>set ds. is_digit c" and rest: "rest = [] \<or> \<not> is_digit (hd rest)"
    unfolding matches_here_def by blast
  from ne ds have "\<not> is_space (hd ds)" by (simp add: digit_not_space)
  with ne have d1: "dropWhile is_space (ds @ rest) = ds @ rest" by (cases ds) auto
  from ws have d2: "dropWhile is_space (ws @ ds @ rest) = dropWhile is_space (ds @ rest)"
    by (simp add: dropWhile_append2)
  from rest have t0: "takeWhile is_digit rest = []" by (cases rest) auto
  from ds have t1: "takeWhile is_digit (ds @ rest) = ds" by (simp add: takeWhile_append2 t0)
  show "than_at words s = Some ds"
    by (simp add: than_at_def startsWith_def s d1 d2 t1 ne)
qed

lemma startsWithE: "startsWith s t \<Longrightarrow> \<exists>zs. s = t @ zs"
  by (auto simp: startsWith_prefix prefix_def)

lemma the_letter_at_iff:
  "the_letter_at r = Some c \<longleftrightarrow> (\<exists>x rest. r = '' the letter '' @ [x] @ rest \<and> is_word_char x \<and> c = [x])"
proof
  assume a: "the_letter_at r = Some c"
  then have "startsWith r '' the letter ''"
    by (simp add: the_letter_at_def split: if_splits)
  then obtain zs where r: "r = '' the letter '' @ zs" using startsWithE by blast
  from a obtain x rest where d: "zs = x # rest" and w: "is_word_char x" and c: "c = [x]"
    unfolding r by (auto simp: the_letter_at_def startsWith_def split: if_splits list.splits)
  from r d w c show "\<exists>x rest. r = '' the letter '' @ [x] @ rest \<and> is_word_char x \<and> c = [x]" by simp
next
  assume "\<exists>x rest. r = '' the letter '' @ [x] @ rest \<and> is_word_char x \<and> c = [x]"
  then show "the_letter_at r = Some c"
    by (auto simp: the_letter_at_def startsWith_def)
qed

lemma contain_at_iff: "contain_at s = Some c \<longleftrightarrow> letter_here s c"
proof
  assume a: "contain_at s = Some c"
  then have "startsWith s ''contain''"
    by (simp add: contain_at_def split: if_splits)
  then obtain r where s: "s = ''contain'' @ r" using startsWithE by blast
  have d7: "drop 7 s = r" and d10: "drop 10 s = drop 3 r" unfolding s by simp_all
  from a have "(startsWith r ''ing'' \<and> the_letter_at (drop 3 r) = Some c) \<or> the_letter_at r = Some c"
    unfolding contain_at_def d7 d10 by (auto split: if_splits option.splits)
  then show "letter_here s c"
  proof
    assume b: "startsWith r ''ing'' \<and> the_letter_at (drop 3 r) = Some c"
    then obtain zs where r: "r = ''ing'' @ zs" using startsWithE by blast
    from b obtain x rest where z: "zs = '' the letter '' @ [x] @ rest" and w: "is_word_char x" and c: "c = [x]"
      unfolding the_letter_at_iff r by auto
    from s r z have "s = ''contain'' @ ''ing'' @ '' the letter '' @ [x] @ rest" by simp
    with w c show ?thesis unfolding letter_here_def by blast
  next
    assume "the_letter_at r = Some c"
    then obtain x rest where r: "r = '' the letter '' @ [x] @ rest" and w: "is_word_char x" and c: "c = [x]"
      unfolding the_letter_at_iff by blast
    with s have "s = ''contain'' @ [] @ '' the letter '' @ [x] @ rest" by simp
    with w c show ?thesis unfolding letter_here_def by blast
  qed
next
  assume "letter_here s c"
  then obtain ing x rest where s: "s = ''contain'' @ ing @ '' the letter '' @ [x] @ rest"
    and i: "ing = [] \<or> ing = ''ing''" and w: "is_word_char x" and c: "c = [x]"
    unfolding letter_here_def by blast
  from i show "contain_at s = Some c"
  proof
    assume "ing = []"
    with s w c show ?thesis
      by (simp add: contain_at_def startsWith_def the_letter_at_def)
  next
    assume "ing = ''ing''"
    with s w c show ?thesis
      by (simp add: contain_at_def startsWith_def the_letter_at_def)
  qed
qed

section \<open>The rules of the natural-language query\<close>

lemma sublist_not_blank:
  assumes "sublist t (toLowerCase q)" "\<exists>c\<in>set t. \<not> is_space c"
  shows "trim q \<noteq> []"
proof -
  from assms(1) have "set t \<subseteq> set (toLowerCase q)" by (rule set_mono_sublist)
  with assms(2) have "\<exists>c\<in>set (toLowerCase q). \<not> is_space c" by blast
  then have "trim (toLowerCase q) \<noteq> []" by (simp add: trim_empty_iff)
  then show ?thesis by (simp add: trim_toLowerCase_empty)
qed

lemma phrases_not_blank:
  "\<exists>c\<in>set ''non-palindrome''. \<not> is_space c"
  "\<exists>c\<in>set ''not palindrome''. \<not> is_space c"
  "\<exists>c\<in>set ''palindrome''. \<not> is_space c"
  "\<exists>c\<in>set ''first vowel''. \<not> is_space c"
  by (simp_all add: is_space_def code_def)

lemma handler_phrase:
  assumes "sublist t (toLowerCase q)" "\<exists>c\<in>set t. \<not> is_space c"
  shows "filter_by_natural_language strings (JString q) =
          Interpreted (execute_filtering (parse_filters (toLowerCase q)) (values_of strings))
            (length (execute_filtering (parse_filters (toLowerCase q)) (values_of strings)))
            q (parse_filters (toLowerCase q))"
  by (rule handler_nonblank[OF sublist_not_blank[OF assms]])



lemma sublist_eval: "sublist t s = includes_str s t"
  by (simp add: includes_str_sublist)

text \<open>
  C5. For every query whose lower-cased text contains \<open>non-palindrome\<close> or
  \<open>not palindrome\<close>, the handler answers with the parsed filters and sets
  \<open>is_palindrome\<close> to false, although the text then also contains \<open>palindrome\<close>; the
  plain \<open>palindrome\<close> rule sets it to true only when neither negated phrase occurs.
\<close>

theorem negated_palindrome_has_priority:
  "(sublist ''non-palindrome'' (toLowerCase q) \<or> sublist ''not palindrome'' (toLowerCase q) \<longrightarrow>
      is_palindrome_f (parse_filters (toLowerCase q)) = Some False
      \<and> filter_by_natural_language strings (JString q) =
          Interpreted (execute_filtering (parse_filters (toLowerCase q)) (values_of strings))
            (length (execute_filtering (parse_filters (toLowerCase q)) (values_of strings)))
            q (parse_filters (toLowerCase q)))
   \<and> (sublist ''palindrome'' (toLowerCase q) \<and> \<not> sublist ''non-palindrome'' (toLowerCase q)
        \<and> \<not> sublist ''not palindrome'' (toLowerCase q) \<longrightarrow>
      is_palindrome_f (parse_filters (toLowerCase q)) = Some True
      \<and> filter_by_natural_language strings (JString q) =
          Interpreted (execute_filtering (parse_filters (toLowerCase q)) (values_of strings))
            (length (execute_filtering (parse_filters (toLowerCase q)) (values_of strings)))
            q (parse_filters (toLowerCase q)))"
proof (intro conjI impI)
  assume n: "sublist ''non-palindrome'' (toLowerCase q) \<or> sublist ''not palindrome'' (toLowerCase q)"
  then show "is_palindrome_f (parse_filters (toLowerCase q)) = Some False"
    by (simp add: parse_filters_is_palindrome includes_str_sublist)
  from n show "filter_by_natural_language strings (JString q) =
          Interpreted (execute_filtering (parse_filters (toLowerCase q)) (values_of strings))
            (length (execute_filtering (parse_filters (toLowerCase q)) (values_of strings)))
            q (parse_filters (toLowerCase q))"
    using handler_phrase[OF _ phrases_not_blank(1)] handler_phrase[OF _ phrases_not_blank(2)] by blast
next
  assume p: "sublist ''palindrome'' (toLowerCase q) \<and> \<not> sublist ''non-palindrome'' (toLowerCase q)
        \<and> \<not> sublist ''not palindrome'' (toLowerCase q)"
  then show "is_palindrome_f (parse_filters (toLowerCase q)) = Some True"
    by (simp add: parse_filters_is_palindrome includes_str_sublist)
  from p show "filter_by_natural_language strings (JString q) =
          Interpreted (execute_filtering (parse_filters (toLowerCase q)) (values_of strings))
            (length (execute_filtering (parse_filters (toLowerCase q)) (values_of strings)))
            q (parse_filters (toLowerCase q))"
    using handler_phrase[OF _ phrases_not_blank(3)] by blast
qed

theorem negated_palindrome_has_priority_witness:
  "is_palindrome_f (parse_filters (toLowerCase ''Non-Palindrome strings'')) = Some False
   \<and> is_palindrome_f (parse_filters (toLowerCase ''all PALINDROMES'')) = Some True
   \<and> parse_filters ''non-palindrome strings'' = no_filters\<lparr>is_palindrome_f := Some False\<rparr>"
proof -
  have h1: "sublist ''non-palindrome'' (toLowerCase ''Non-Palindrome strings'')"
    by (simp add: sublist_eval string_eval)
  have h2: "sublist ''palindrome'' (toLowerCase ''all PALINDROMES'')
      \<and> \<not> sublist ''non-palindrome'' (toLowerCase ''all PALINDROMES'')
      \<and> \<not> sublist ''not palindrome'' (toLowerCase ''all PALINDROMES'')"
    by (simp add: sublist_eval string_eval)
  have e: "parse_filters ''non-palindrome strings'' = no_filters\<lparr>is_palindrome_f := Some False\<rparr>"
    by (simp add: parse_eval string_eval)
  show ?thesis
    using negated_palindrome_has_priority[of "''Non-Palindrome strings''" "[]"] negated_palindrome_has_priority[of "''all PALINDROMES''" "[]"] h1 h2 e
    by simp
qed

lemma shift_count_small: "a < 2 ^ 53 \<Longrightarrow> shift_count a = 0"
  by simp

lemma shift_count_next: "2 ^ 53 \<le> a \<Longrightarrow> a < 2 ^ 54 \<Longrightarrow> shift_count a = 1"
  by simp

lemma round53_eval:
  "round53 9007199254740992 = 9007199254740992"
  "round53 9007199254740993 = 9007199254740992"
  "round53 9007199254740994 = 9007199254740994"
  by (simp_all add: round53_def shift_count_next)

lemma number_of_int_exact_le:
  assumes "\<bar>n\<bar> \<le> 2 ^ 53"
  shows "number_of_int n = Num n"
proof (cases "\<bar>n\<bar> < 2 ^ 53")
  case True
  then show ?thesis by (rule number_of_int_exact)
next
  case False
  with assms have "\<bar>n\<bar> = 9007199254740992" by simp
  then have "n = 9007199254740992 \<or> n = - 9007199254740992" by linarith
  then show ?thesis
    by (auto simp: number_of_int_def round53_eval)
qed

lemma js_add_exact:
  assumes "0 \<le> n" "n \<le> 2 ^ 53" "\<bar>n + k\<bar> \<le> 2 ^ 53"
  shows "js_add (number_of_int n) k = Num (n + k)"
proof -
  from assms(1,2) have "number_of_int n = Num n" by (intro number_of_int_exact_le) simp
  with assms(3) show ?thesis by (simp add: number_of_int_exact_le)
qed

lemma digits_value_eval:
  "digits_value ''3'' = 3" "digits_value ''0'' = 0"
  "digits_value ''9007199254740992'' = 9007199254740992"
  "digits_value ''9007199254740994'' = 9007199254740994"
  by (simp_all add: digits_value_def digit_val_def code_def)

text \<open>
  C6 (as amended). When the first match of \<open>/longer than\s*(\d+)/\<close> in the lower-cased
  query has the digits \<open>ds\<close>, of value \<open>N\<close>, \<open>min_length\<close> is the number that
  JavaScript computes for \<open>parseInt(ds, 10) + 1\<close>, and that number is \<open>N + 1\<close> for every
  \<open>N\<close> below \<open>2 ^ 53\<close>; when the first match of \<open>/shorter than\s*(\d+)/\<close> has them,
  \<open>max_length\<close> is the number computed for \<open>parseInt(ds, 10) - 1\<close>, which is \<open>N - 1\<close>
  for every \<open>N\<close> up to \<open>2 ^ 53\<close> (so \<open>- 1\<close> for 0). The first match starts after
  \<open>pre\<close>: no match starts inside \<open>pre\<close>. In both cases the handler answers with the
  parsed filters.
\<close>

theorem longer_shorter_than_bounds:
  assumes "toLowerCase q = pre @ t"
    and "matches_here words t ds"
    and "\<forall>k<length pre. \<forall>d. \<not> matches_here words (drop k (toLowerCase q)) d"
  shows "(words = ''longer than'' \<longrightarrow>
            min_length_f (parse_filters (toLowerCase q))
              = Some (js_add (number_of_int (digits_value ds)) 1)
            \<and> (digits_value ds < 2 ^ 53 \<longrightarrow>
                 min_length_f (parse_filters (toLowerCase q)) = Some (Num (digits_value ds + 1))))
       \<and> (words = ''shorter than'' \<longrightarrow>
            max_length_f (parse_filters (toLowerCase q))
              = Some (js_add (number_of_int (digits_value ds)) (- 1))
            \<and> (digits_value ds \<le> 2 ^ 53 \<longrightarrow>
                 max_length_f (parse_filters (toLowerCase q)) = Some (Num (digits_value ds - 1))))
       \<and> (words = ''longer than'' \<or> words = ''shorter than'' \<longrightarrow>
            filter_by_natural_language strings (JString q) =
              Interpreted (execute_filtering (parse_filters (toLowerCase q)) (values_of strings))
                (length (execute_filtering (parse_filters (toLowerCase q)) (values_of strings)))
                q (parse_filters (toLowerCase q)))"
proof -
  from assms(2) have m: "than_at words t = Some ds" by (simp add: than_at_iff)
  have "\<forall>k<length pre. than_at words (drop k (pre @ t)) = None"
  proof (intro allI impI)
    fix k assume "k < length pre"
    with assms(3) have "\<forall>d. \<not> matches_here words (drop k (toLowerCase q)) d" by blast
    then have "\<forall>d. than_at words (drop k (toLowerCase q)) \<noteq> Some d" by (simp add: than_at_iff)
    then show "than_at words (drop k (pre @ t)) = None" unfolding assms(1) by (cases "than_at words (drop k (pre @ t))") auto
  qed
  with m have s: "search (than_at words) (toLowerCase q) = Some ds"
    unfolding assms(1) by (rule search_leftmost)
  from assms(2) have d: "ds \<noteq> []" "\<forall>c\<in>set ds. is_digit c" by (auto simp: matches_here_def)
  then have p: "parseInt10 ds = number_of_int (digits_value ds)" by (rule parseInt10_digits)
  from d(2) have n0: "0 \<le> digits_value ds" by (rule digits_value_nonneg)
  from assms(2) obtain ws rest where t: "t = words @ ws @ ds @ rest" by (auto simp: matches_here_def)
  have nb: "words = ''longer than'' \<or> words = ''shorter than'' \<Longrightarrow> trim q \<noteq> []"
  proof -
    assume w: "words = ''longer than'' \<or> words = ''shorter than''"
    then have "\<exists>c\<in>set words. \<not> is_space c" by (auto simp: is_space_def code_def)
    moreover have "sublist words (toLowerCase q)" unfolding assms(1) t by (auto simp: sublist_def)
    ultimately show ?thesis by (rule sublist_not_blank[rotated])
  qed
  show ?thesis
  proof (intro conjI impI)
    assume "words = ''longer than''"
    with s p show l: "min_length_f (parse_filters (toLowerCase q))
        = Some (js_add (number_of_int (digits_value ds)) 1)"
      by (simp add: parse_filters_min_length)
    assume "digits_value ds < 2 ^ 53"
    with n0 have "js_add (number_of_int (digits_value ds)) 1 = Num (digits_value ds + 1)"
      by (intro js_add_exact) simp_all
    with l show "min_length_f (parse_filters (toLowerCase q)) = Some (Num (digits_value ds + 1))"
      by simp
  next
    assume "words = ''shorter than''"
    with s p show l: "max_length_f (parse_filters (toLowerCase q))
        = Some (js_add (number_of_int (digits_value ds)) (- 1))"
      by (simp add: parse_filters_max_length)
    assume "digits_value ds \<le> 2 ^ 53"
    with n0 have "js_add (number_of_int (digits_value ds)) (- 1) = Num (digits_value ds + (- 1))"
      by (intro js_add_exact) simp_all
    with l show "max_length_f (parse_filters (toLowerCase q)) = Some (Num (digits_value ds - 1))"
      by simp
  next
    assume "words = ''longer than'' \<or> words = ''shorter than''"
    then show "filter_by_natural_language strings (JString q) =
              Interpreted (execute_filtering (parse_filters (toLowerCase q)) (values_of strings))
                (length (execute_filtering (parse_filters (toLowerCase q)) (values_of strings)))
                q (parse_filters (toLowerCase q))"
      by (rule handler_nonblank[OF nb])
  qed
qed

theorem longer_shorter_than_bounds_witness:
  "min_length_f (parse_filters (toLowerCase ''Strings longer than 3'')) = Some (Num 4)
   \<and> max_length_f (parse_filters (toLowerCase ''shorter than 0'')) = Some (Num (- 1))
   \<and> parse_filters ''strings longer than 3'' = no_filters\<lparr>min_length_f := Some (Num 4)\<rparr>"
proof -
  have l1: "toLowerCase ''Strings longer than 3'' = ''strings '' @ ''longer than 3''"
    by (simp add: string_eval)
  have m1: "matches_here ''longer than'' ''longer than 3'' ''3''"
    by (simp add: than_at_iff[symmetric] than_at_def string_eval)
  have n1: "\<forall>k<length ''strings ''. \<forall>d. \<not> matches_here ''longer than''
      (drop k (toLowerCase ''Strings longer than 3'')) d"
  proof (intro allI impI)
    fix k :: nat and d
    assume "k < length ''strings ''"
    then have "k < 8" by simp
    then have "k \<in> {0, 1, 2, 3, 4, 5, 6, 7}" by auto
    then have "than_at ''longer than'' (drop k ''strings longer than 3'') = None"
      by (elim insertE emptyE) (simp_all add: than_at_def string_eval)
    then show "\<not> matches_here ''longer than'' (drop k (toLowerCase ''Strings longer than 3'')) d"
      unfolding l1 by (simp add: than_at_iff[symmetric])
  qed
  have l2: "toLowerCase ''shorter than 0'' = [] @ ''shorter than 0''"
    by (simp add: string_eval)
  have m2: "matches_here ''shorter than'' ''shorter than 0'' ''0''"
    by (simp add: than_at_iff[symmetric] than_at_def string_eval)
  have n2: "\<forall>k<length ([]::string). \<forall>d. \<not> matches_here ''shorter than''
      (drop k (toLowerCase ''shorter than 0'')) d"
    by simp
  have e: "parse_filters ''strings longer than 3'' = no_filters\<lparr>min_length_f := Some (Num 4)\<rparr>"
    by (simp add: parse_eval string_eval)
  show ?thesis
    using longer_shorter_than_bounds[OF l1 m1 n1, of "[]"] longer_shorter_than_bounds[OF l2 m2 n2, of "[]"] e
    by (simp add: digits_value_eval number_of_int_def round53_def)
qed

text \<open>
  C6 as stated fails from \<open>2 ^ 53\<close> on, where the numbers of JavaScript are no longer
  all the integers: for \<open>longer than 9007199254740992\<close> the sum
  \<open>9007199254740992 + 1\<close> is rounded back to \<open>9007199254740992\<close>, which is \<open>N\<close>
  itself, and for \<open>shorter than 9007199254740994\<close> the difference is rounded to
  \<open>9007199254740992\<close>, which is \<open>N - 2\<close>.
\<close>

theorem bound_is_rounded_from_2_53:
  "min_length_f (parse_filters (toLowerCase ''longer than 9007199254740992''))
     = Some (Num 9007199254740992)
   \<and> digits_value ''9007199254740992'' + 1 = 9007199254740993
   \<and> max_length_f (parse_filters (toLowerCase ''shorter than 9007199254740994''))
     = Some (Num 9007199254740992)
   \<and> digits_value ''9007199254740994'' - 1 = 9007199254740993
   \<and> filter_by_natural_language [] (JString ''longer than 9007199254740992'')
     = Interpreted [] 0 ''longer than 9007199254740992''
         (no_filters\<lparr>min_length_f := Some (Num 9007199254740992)\<rparr>)"
proof -
  have l1: "toLowerCase ''longer than 9007199254740992'' = ''longer than 9007199254740992''"
    and l2: "toLowerCase ''shorter than 9007199254740994'' = ''shorter than 9007199254740994''"
    by (simp_all add: string_eval)
  have s1: "search (than_at ''longer than'') ''longer than 9007199254740992''
      = Some ''9007199254740992''"
    by (simp add: than_at_def string_eval)
  have s2: "search (than_at ''shorter than'') ''shorter than 9007199254740994''
      = Some ''9007199254740994''"
    by (simp add: than_at_def string_eval)
  have p1: "parseInt10 ''9007199254740992'' = Num 9007199254740992"
    and p2: "parseInt10 ''9007199254740994'' = Num 9007199254740994"
    by (simp_all add: parseInt10_def string_eval digits_value_eval number_of_int_def round53_eval)
  have a1: "js_add (Num 9007199254740992) 1 = Num 9007199254740992"
    and a2: "js_add (Num 9007199254740994) (- 1) = Num 9007199254740992"
    by (simp_all add: number_of_int_def round53_eval)
  have 1: "min_length_f (parse_filters ''longer than 9007199254740992'')
      = Some (Num 9007199254740992)"
    by (simp only: parse_filters_min_length s1 option.case p1 a1)
  have 2: "max_length_f (parse_filters ''shorter than 9007199254740994'')
      = Some (Num 9007199254740992)"
    by (simp only: parse_filters_max_length s2 option.case p2 a2)
  have p: "parse_filters ''longer than 9007199254740992''
      = no_filters\<lparr>min_length_f := Some (Num 9007199254740992)\<rparr>"
    by (simp add: parse_eval string_eval s1 digits_value_eval round53_eval)
  have t: "trim ''longer than 9007199254740992'' \<noteq> []"
    by (simp add: string_eval)
  have h: "filter_by_natural_language [] (JString ''longer than 9007199254740992'')
     = Interpreted [] 0 ''longer than 9007199254740992''
         (no_filters\<lparr>min_length_f := Some (Num 9007199254740992)\<rparr>)"
    unfolding handler_nonblank[OF t] l1 p
    by (simp add: execute_filtering_def values_of_def no_filters_def Let_def)
  show ?thesis
    unfolding l1 l2 using 1 2 h by (simp add: digits_value_eval)
qed




text \<open>
  C10. For every query whose lower-cased text contains \<open>first vowel\<close>,
  \<open>contains_character\<close> is \<open>"a"\<close>: the block sets it without looking at the
  \<open>contain(ing) the letter X\<close> pattern, whatever that pattern would match.
\<close>

theorem first_vowel_sets_a:
  "sublist ''first vowel'' (toLowerCase q) \<longrightarrow>
      contains_character_f (parse_filters (toLowerCase q)) = Some ''a''
      \<and> character_filter (toLowerCase q) f = f\<lparr>contains_character_f := Some ''a''\<rparr>
      \<and> filter_by_natural_language strings (JString q) =
          Interpreted (execute_filtering (parse_filters (toLowerCase q)) (values_of strings))
            (length (execute_filtering (parse_filters (toLowerCase q)) (values_of strings)))
            q (parse_filters (toLowerCase q))"
proof (intro conjI impI)
  assume v: "sublist ''first vowel'' (toLowerCase q)"
  then show "contains_character_f (parse_filters (toLowerCase q)) = Some ''a''"
    by (simp add: parse_filters_contains_character includes_str_sublist)
  from v show "character_filter (toLowerCase q) f = f\<lparr>contains_character_f := Some ''a''\<rparr>"
    by (simp add: character_filter_def includes_str_sublist)
  from v show "filter_by_natural_language strings (JString q) =
          Interpreted (execute_filtering (parse_filters (toLowerCase q)) (values_of strings))
            (length (execute_filtering (parse_filters (toLowerCase q)) (values_of strings)))
            q (parse_filters (toLowerCase q))"
    by (rule handler_phrase[OF _ phrases_not_blank(4)])
qed

theorem first_vowel_sets_a_witness:
  "contains_character_f (parse_filters (toLowerCase ''First vowel containing the letter z'')) = Some ''a''
   \<and> search contain_at (toLowerCase ''First vowel containing the letter z'') = Some ''z''"
proof -
  have h: "sublist ''first vowel'' (toLowerCase ''First vowel containing the letter z'')"
    by (simp add: sublist_eval string_eval)
  have z: "search contain_at (toLowerCase ''First vowel containing the letter z'') = Some ''z''"
    by (simp add: contain_at_def the_letter_at_def string_eval)
  show ?thesis
    using first_vowel_sets_a[of "''First vowel containing the letter z''" no_filters "[]"] h z by simp
qed

section \<open>Validation of the structured query\<close>

text \<open>
  What the tests of \<open>GET /strings\<close> do reject: a \<open>contains_character\<close> that is not one
  string or has more than one character, and a numeric parameter from whose start
  \<open>parseInt\<close> reads no integer or a negative one.
\<close>

lemma block_contains_character_rejects:
  assumes "contains_character_q q = Some c"
    and "case c of QString s \<Rightarrow> length s > 1 | _ \<Rightarrow> True"
  shows "\<exists>m. block_contains_character q a = Inl (Error 400 m)"
  using assms by (auto simp: block_contains_character_def split: qvalue.splits)

lemma block_min_length_rejects:
  assumes "min_length_q q = Some p"
    and "parseInt10 (to_string p) = NaN \<or> js_less (parseInt10 (to_string p)) (Num 0)"
  shows "\<exists>m. block_min_length q a = Inl (Error 400 m)"
  using assms by (auto simp: block_min_length_def Let_def)

lemma includes_str_Nil: "includes_str s []"
  by (cases s) (simp_all add: startsWith_def)

text \<open>
  C4. The claim asks that a malformed parameter be rejected with 400, as the messages
  of the handler say (\<open>Must be a non-negative integer\<close>, \<open>Must be a single character
  string\<close>). The tests of the handler let some malformed parameters through. None of the
  three queries below is acceptable. \<open>min_length=5abc\<close> is read by \<open>parseInt\<close> as 5
  and applied; so is \<open>word_count=1.5\<close>, as 1. The empty \<open>contains_character\<close> passes
  the test \<open>char.length > 1\<close> and selects every record. A repeated \<open>is_palindrome\<close>
  reaches the handler as an array, and \<open>toLowerCase\<close> throws on it: the answer is an
  internal error, not 400.
\<close>

theorem malformed_parameters_are_let_through:
  "\<not> acceptable \<lparr> is_palindrome_q = None, min_length_q = Some (QString ''5abc''),
        max_length_q = None, word_count_q = None, contains_character_q = None \<rparr>
   \<and> get_strings [(sha256 ''racecar'', analyzeString example_time ''racecar''),
                   (sha256 ''hi'', analyzeString example_time ''hi'')]
       \<lparr> is_palindrome_q = None, min_length_q = Some (QString ''5abc''), max_length_q = None,
         word_count_q = None, contains_character_q = None \<rparr>
     = Listed [analyzeString example_time ''racecar''] 1
         (no_filters\<lparr>min_length_f := Some (Num 5)\<rparr>)
   \<and> \<not> acceptable \<lparr> is_palindrome_q = None, min_length_q = None, max_length_q = None,
        word_count_q = Some (QString ''1.5''), contains_character_q = None \<rparr>
   \<and> get_strings []
       \<lparr> is_palindrome_q = None, min_length_q = None, max_length_q = None,
         word_count_q = Some (QString ''1.5''), contains_character_q = None \<rparr>
     = Listed [] 0 (no_filters\<lparr>word_count_f := Some (Num 1)\<rparr>)
   \<and> \<not> acceptable \<lparr> is_palindrome_q = None, min_length_q = None, max_length_q = None,
        word_count_q = None, contains_character_q = Some (QString []) \<rparr>
   \<and> get_strings [(sha256 ''racecar'', analyzeString example_time ''racecar''),
                   (sha256 ''hi'', analyzeString example_time ''hi'')]
       \<lparr> is_palindrome_q = None, min_length_q = None, max_length_q = None,
         word_count_q = None, contains_character_q = Some (QString []) \<rparr>
     = Listed [analyzeString example_time ''racecar'', analyzeString example_time ''hi''] 2
         (no_filters\<lparr>contains_character_f := Some []\<rparr>)
   \<and> \<not> acceptable \<lparr> is_palindrome_q = Some (QArray [QString ''true'', QString ''false'']),
        min_length_q = None, max_length_q = None, word_count_q = None,
        contains_character_q = None \<rparr>
   \<and> get_strings []
       \<lparr> is_palindrome_q = Some (QArray [QString ''true'', QString ''false'']),
         min_length_q = None, max_length_q = None, word_count_q = None,
         contains_character_q = None \<rparr>
     = Threw ''TypeError: filters.is_palindrome.toLowerCase is not a function''"
proof (intro conjI)
  show "\<not> acceptable \<lparr> is_palindrome_q = None, min_length_q = Some (QString ''5abc''),
        max_length_q = None, word_count_q = None, contains_character_q = None \<rparr>"
    by (simp add: acceptable_def natural_literal_def string_eval)
  show "get_strings [(sha256 ''racecar'', analyzeString example_time ''racecar''),
                   (sha256 ''hi'', analyzeString example_time ''hi'')]
       \<lparr> is_palindrome_q = None, min_length_q = Some (QString ''5abc''), max_length_q = None,
         word_count_q = None, contains_character_q = None \<rparr>
     = Listed [analyzeString example_time ''racecar''] 1
         (no_filters\<lparr>min_length_f := Some (Num 5)\<rparr>)"
    by (simp add: get_strings_def and_then_def block_defs values_of_def Let_def
        number_eval string_eval analyze_sel js_ge_def)
  show "\<not> acceptable \<lparr> is_palindrome_q = None, min_length_q = None, max_length_q = None,
        word_count_q = Some (QString ''1.5''), contains_character_q = None \<rparr>"
    by (simp add: acceptable_def natural_literal_def string_eval)
  show "get_strings []
       \<lparr> is_palindrome_q = None, min_length_q = None, max_length_q = None,
         word_count_q = Some (QString ''1.5''), contains_character_q = None \<rparr>
     = Listed [] 0 (no_filters\<lparr>word_count_f := Some (Num 1)\<rparr>)"
    by (simp add: get_strings_def and_then_def block_defs values_of_def Let_def
        number_eval string_eval)
  show "\<not> acceptable \<lparr> is_palindrome_q = None, min_length_q = None, max_length_q = None,
        word_count_q = None, contains_character_q = Some (QString []) \<rparr>"
    by (simp add: acceptable_def natural_literal_def)
  show "get_strings [(sha256 ''racecar'', analyzeString example_time ''racecar''),
                   (sha256 ''hi'', analyzeString example_time ''hi'')]
       \<lparr> is_palindrome_q = None, min_length_q = None, max_length_q = None,
         word_count_q = None, contains_character_q = Some (QString []) \<rparr>
     = Listed [analyzeString example_time ''racecar'', analyzeString example_time ''hi''] 2
         (no_filters\<lparr>contains_character_f := Some []\<rparr>)"
    by (simp add: get_strings_def and_then_def block_defs values_of_def Let_def
        toLowerCase_def includes_str_Nil)
  show "\<not> acceptable \<lparr> is_palindrome_q = Some (QArray [QString ''true'', QString ''false'']),
        min_length_q = None, max_length_q = None, word_count_q = None,
        contains_character_q = None \<rparr>"
    by (simp add: acceptable_def)
  show "get_strings []
       \<lparr> is_palindrome_q = Some (QArray [QString ''true'', QString ''false'']),
         min_length_q = None, max_length_q = None, word_count_q = None,
         contains_character_q = None \<rparr>
     = Threw ''TypeError: filters.is_palindrome.toLowerCase is not a function''"
    by (simp add: get_strings_def and_then_def block_defs)
qed

section \<open>The fallback of the natural-language query\<close>

lemma search_None_than:
  assumes "\<forall>k d. \<not> matches_here words (drop k s) d"
  shows "search (than_at words) s = None"
proof -
  have "\<forall>k. than_at words (drop k s) = None"
  proof
    fix k
    show "than_at words (drop k s) = None"
    proof (cases "than_at words (drop k s)")
      case None
      then show ?thesis .
    next
      case (Some d)
      then have "matches_here words (drop k s) d" by (simp add: than_at_iff)
      with assms show ?thesis by blast
    qed
  qed
  then show ?thesis by (simp add: search_None_iff)
qed

lemma search_None_letter:
  assumes "\<forall>k c. \<not> letter_here (drop k s) c"
  shows "search contain_at s = None"
proof -
  have "\<forall>k. contain_at (drop k s) = None"
  proof
    fix k
    show "contain_at (drop k s) = None"
    proof (cases "contain_at (drop k s)")
      case None
      then show ?thesis .
    next
      case (Some c)
      then have "letter_here (drop k s) c" by (simp add: contain_at_iff)
      with assms show ?thesis by blast
    qed
  qed
  then show ?thesis by (simp add: search_None_iff)
qed

lemma negated_phrases_contain:
  "sublist ''palindrome'' ''non-palindrome''" "sublist ''palindrome'' ''not palindrome''"
  by (simp_all add: sublist_eval startsWith_def)

lemma no_palindrome_no_negation:
  assumes "\<not> sublist ''palindrome'' s"
  shows "\<not> sublist ''non-palindrome'' s \<and> \<not> sublist ''not palindrome'' s"
  using assms negated_phrases_contain sublist_order.order_trans by blast

text \<open>
  C9 (as amended). For every query that is not blank and in which no rule matched
  (no \<open>palindrome\<close>, no \<open>single word\<close>, no \<open>first vowel\<close>, no match of the
  \<open>longer than\<close>, \<open>shorter than\<close> and \<open>contain(ing) the letter\<close> patterns at any
  position), the handler does not fail: \<open>value_contains\<close> is the whole lower-cased query,
  no other filter is set, and the answer lists the records whose value contains the
  query text, whatever the letter case.
\<close>

theorem unrecognised_query_falls_back:
  assumes "trim q \<noteq> []"
    and "\<not> sublist ''palindrome'' (toLowerCase q)"
    and "\<not> sublist ''single word'' (toLowerCase q)"
    and "\<not> sublist ''first vowel'' (toLowerCase q)"
    and "\<forall>k d. \<not> matches_here ''longer than'' (drop k (toLowerCase q)) d"
    and "\<forall>k d. \<not> matches_here ''shorter than'' (drop k (toLowerCase q)) d"
    and "\<forall>k c. \<not> letter_here (drop k (toLowerCase q)) c"
  shows "filter_by_natural_language strings (JString q) =
           Interpreted (filter (\<lambda>s. contains_ci (value_r s) q) (values_of strings))
             (length (filter (\<lambda>s. contains_ci (value_r s) q) (values_of strings)))
             q (no_filters\<lparr>value_contains_f := Some (toLowerCase q)\<rparr>)"
proof -
  let ?lq = "toLowerCase q"
  have 1: "is_palindrome_f (parse_filters ?lq) = None"
    using assms(2) no_palindrome_no_negation[OF assms(2)]
    by (simp add: parse_filters_is_palindrome includes_str_sublist)
  have 2: "word_count_f (parse_filters ?lq) = None"
    using assms(3) by (simp add: parse_filters_word_count includes_str_sublist)
  have 3: "min_length_f (parse_filters ?lq) = None"
    using search_None_than[OF assms(5)] by (simp add: parse_filters_min_length)
  have 4: "max_length_f (parse_filters ?lq) = None"
    using search_None_than[OF assms(6)] by (simp add: parse_filters_max_length)
  have 5: "contains_character_f (parse_filters ?lq) = None"
    using search_None_letter[OF assms(7)] assms(4)
    by (simp add: parse_filters_contains_character includes_str_sublist)
  have 6: "value_contains_f (parse_filters ?lq) = Some ?lq"
    by (simp add: parse_filters_value_contains 1 2 3 4 5)
  have p: "parse_filters ?lq = no_filters\<lparr>value_contains_f := Some ?lq\<rparr>"
    by (rule filters_eqI) (simp_all add: 1 2 3 4 5 6 no_filters_def)
  have e: "execute_filtering (no_filters\<lparr>value_contains_f := Some ?lq\<rparr>) (values_of strings)
      = filter (\<lambda>s. contains_ci (value_r s) q) (values_of strings)"
    by (simp add: execute_filtering_def no_filters_def contains_ci_def includes_str_sublist toLowerCase_idem)
  show ?thesis
    unfolding handler_nonblank[OF assms(1)] p e ..
qed


lemma no_match_than:
  "search (than_at words) s = None \<Longrightarrow> \<forall>k d. \<not> matches_here words (drop k s) d"
  by (simp add: search_None_iff than_at_iff[symmetric])

lemma no_match_letter:
  "search contain_at s = None \<Longrightarrow> \<forall>k c. \<not> letter_here (drop k s) c"
  by (simp add: search_None_iff contain_at_iff[symmetric])

theorem unrecognised_query_falls_back_witness:
  "filter_by_natural_language
     [(sha256 ''hello'', analyzeString example_time ''hello''),
      (sha256 ''racecar'', analyzeString example_time ''racecar''),
      (sha256 ''Hello World'', analyzeString example_time ''Hello World'')]
     (JString ''HELLO'')
   = Interpreted [analyzeString example_time ''hello'', analyzeString example_time ''Hello World'']
       2 ''HELLO'' (no_filters\<lparr>value_contains_f := Some ''hello''\<rparr>)"
proof -
  have l: "toLowerCase ''HELLO'' = ''hello''" by (simp add: string_eval)
  have h1: "trim ''HELLO'' \<noteq> []" by (simp add: string_eval)
  have h2: "\<not> sublist ''palindrome'' (toLowerCase ''HELLO'')"
    and h3: "\<not> sublist ''single word'' (toLowerCase ''HELLO'')"
    and h4: "\<not> sublist ''first vowel'' (toLowerCase ''HELLO'')"
    unfolding l by (simp_all add: sublist_eval string_eval)
  have h5: "\<forall>k d. \<not> matches_here ''longer than'' (drop k (toLowerCase ''HELLO'')) d"
    unfolding l by (rule no_match_than) (simp add: than_at_def string_eval)
  have h6: "\<forall>k d. \<not> matches_here ''shorter than'' (drop k (toLowerCase ''HELLO'')) d"
    unfolding l by (rule no_match_than) (simp add: than_at_def string_eval)
  have h7: "\<forall>k c. \<not> letter_here (drop k (toLowerCase ''HELLO'')) c"
    unfolding l by (rule no_match_letter) (simp add: contain_at_def string_eval)
  show ?thesis
    using unrecognised_query_falls_back[OF h1 h2 h3 h4 h5 h6 h7, of "[(sha256 ''hello'', analyzeString example_time ''hello''),
      (sha256 ''racecar'', analyzeString example_time ''racecar''),
      (sha256 ''Hello World'', analyzeString example_time ''Hello World'')]"]
    by (simp add: values_of_def contains_ci_def sublist_eval analyze_sel string_eval)
qed

text \<open>
  C9 as stated fails: in the query \<open>first vowel\<close> none of the rules the claim lists
  matches, and the answer is not the substring fallback but the records that contain
  the letter \<open>a\<close>.
\<close>

theorem first_vowel_query_has_no_fallback:
  "trim ''first vowel'' \<noteq> []
   \<and> \<not> includes_str (toLowerCase ''first vowel'') ''palindrome''
   \<and> \<not> includes_str (toLowerCase ''first vowel'') ''single word''
   \<and> search (than_at ''longer than'') (toLowerCase ''first vowel'') = None
   \<and> search (than_at ''shorter than'') (toLowerCase ''first vowel'') = None
   \<and> search contain_at (toLowerCase ''first vowel'') = None
   \<and> filter_by_natural_language
       [(sha256 ''banana'', analyzeString example_time ''banana''),
        (sha256 ''first vowel'', analyzeString example_time ''first vowel'')]
       (JString ''first vowel'')
     = Interpreted [analyzeString example_time ''banana''] 1 ''first vowel''
         (no_filters\<lparr>contains_character_f := Some ''a''\<rparr>)"
proof -
  have l: "toLowerCase ''first vowel'' = ''first vowel''" by (simp add: string_eval)
  have p: "parse_filters ''first vowel'' = no_filters\<lparr>contains_character_f := Some ''a''\<rparr>"
    by (simp add: parse_eval string_eval)
  have t: "trim ''first vowel'' \<noteq> []" by (simp add: string_eval)
  have r: "search (than_at ''longer than'') ''first vowel'' = None"
    "search (than_at ''shorter than'') ''first vowel'' = None"
    "search contain_at ''first vowel'' = None"
    "\<not> includes_str ''first vowel'' ''palindrome''"
    "\<not> includes_str ''first vowel'' ''single word''"
    by (simp_all add: than_at_def contain_at_def string_eval)
  have e: "execute_filtering (no_filters\<lparr>contains_character_f := Some ''a''\<rparr>)
      [analyzeString example_time ''banana'', analyzeString example_time ''first vowel'']
      = [analyzeString example_time ''banana'']"
    by (simp add: execute_filtering_def no_filters_def analyze_sel string_eval)
  have h: "filter_by_natural_language
       [(sha256 ''banana'', analyzeString example_time ''banana''),
        (sha256 ''first vowel'', analyzeString example_time ''first vowel'')]
       (JString ''first vowel'')
     = Interpreted [analyzeString example_time ''banana''] 1 ''first vowel''
         (no_filters\<lparr>contains_character_f := Some ''a''\<rparr>)"
    unfolding handler_nonblank[OF t] l p by (simp add: e values_of_def)
  show ?thesis
    unfolding l by (intro conjI t r h)
qed

end
